theory Spec2Isabelle
  imports Main "HOL-Library.AList"
begin

section \<open>Values shared by the services\<close>

text \<open>
  The synchronisation and event-distribution core of the backend:
  \<^verbatim>\<open>app/core/websockets.py\<close> (WebSocketManager), \<^verbatim>\<open>app/core/events.py\<close> (EventManager),
  \<^verbatim>\<open>app/core/cache.py\<close> (RedisCache), \<^verbatim>\<open>app/services/plaid_service.py\<close> (PlaidService) and
  \<^verbatim>\<open>app/services/sync_service.py\<close> (SyncService).

  Every coroutine is modelled as one function from the state before the call to its
  result and the state after it: a call runs from start to end, and calls do not
  interleave. Exceptions are values; what the injected collaborators (the token
  verifier, the transports, Redis, the Plaid client, the clock) answer is read from an
  environment record, so every theorem below holds for all their behaviours.
\<close>

datatype error =
    ValueError | KeyError | TypeError | RuntimeError | ConnectionClosed
  | TimeoutError | ApiException | OtherException

type_synonym websocket = nat

record balance =
  bal_account_id :: string
  bal_current :: "int option"
  bal_available :: "int option"
  bal_limit :: "int option"
  bal_last_updated :: string

record account =
  acc_account_id :: string
  acc_current :: "int option"
  acc_available :: "int option"
  acc_limit :: "int option"

record txn =
  txn_id :: string
  txn_account_id :: string
  txn_amount :: int
  txn_date :: string
  txn_name :: string
  txn_merchant_name :: "string option"
  txn_category :: "string list option"
  txn_pending :: bool

record sync_response =
  added :: "txn list"
  modified :: "txn list"
  removed :: "string list"
  next_cursor :: string

text \<open>The payload dictionaries the services publish.\<close>

datatype payload =
    AccountPayload string "balance list"
  | TransactionsPayload string "txn list"
  | OtherPayload string

text \<open>The event message of \<^verbatim>\<open>EventManager.publish_event\<close> and the payload of
  \<^verbatim>\<open>WebSocketManager.broadcast\<close>; in the latter the key \<^verbatim>\<open>user_ids\<close> may be absent.\<close>

record event_message =
  ev_type :: string
  ev_payload :: payload
  ev_timestamp :: nat
  ev_target_users :: "string list option"

record ws_payload =
  ws_event :: string
  ws_data :: payload
  ws_timestamp :: string
  ws_user_ids :: "string list option"

record schedule =
  sch_user_id :: string
  sch_access_tokens :: "string list"
  sch_interval :: int
  sch_last_sync :: "string option"

text \<open>What a client sends on its socket: \<^verbatim>\<open>{"type": t}\<close> (a pong is \<^verbatim>\<open>{"type": "pong"}\<close>) or
  a subscription request \<^verbatim>\<open>{"action": a, "event_types": ts}\<close>.\<close>

datatype client_message = TypeMessage string | ActionMessage string "string list"

datatype send_result = Sent | SendClosed | SendFailed

datatype recv_result = Received client_message | RecvTimeout | RecvClosed | RecvFailed

section \<open>The environment and the state\<close>

text \<open>
  \<^item> \<open>verify_token\<close>: \<^verbatim>\<open>self._auth_manager.verify_token(token)\<close> followed by
    \<^verbatim>\<open>payload.get('sub')\<close>: an exception, or the subject if the payload has one;
  \<^item> \<open>accept_ok\<close>, \<open>close_ok\<close>: whether \<^verbatim>\<open>websocket.accept()\<close>, \<^verbatim>\<open>websocket.close()\<close>
    return rather than raise; \<open>send_json\<close>: what \<^verbatim>\<open>websocket.send_json\<close> does;
  \<^item> \<open>redis_ok\<close>: whether Redis answers; if not, \<^verbatim>\<open>RedisCache.get\<close> returns None and
    \<^verbatim>\<open>set\<close>, \<^verbatim>\<open>delete\<close> return False and store nothing;
  \<^item> \<open>await_cache_ok\<close>: whether \<^verbatim>\<open>await self._cache.set(...)\<close> (and \<^verbatim>\<open>delete\<close>) returns
    rather than raises, once the call itself has been made. (The methods of the
    RedisCache of \<^verbatim>\<open>cache.py\<close> are not coroutines: awaiting the bool they return raises
    TypeError after the call has run. A cache with awaitable methods returns.)
  \<^item> \<open>json_ok\<close>: whether \<^verbatim>\<open>json.dumps\<close> accepts the payload;
  \<^item> \<open>accounts_get\<close>, \<open>transactions_sync\<close>: the Plaid client behind PlaidService,
    decryption of the access token included;
  \<^item> \<open>utcnow\<close>, \<open>loop_time\<close>: the clocks, read once for a call.
\<close>

record env =
  verify_token :: "string \<Rightarrow> error + string option"
  accept_ok :: "websocket \<Rightarrow> bool"
  close_ok :: "websocket \<Rightarrow> bool"
  send_json :: "websocket \<Rightarrow> send_result"
  redis_ok :: bool
  await_cache_ok :: bool
  json_ok :: "payload \<Rightarrow> bool"
  accounts_get :: "string \<Rightarrow> error + account list"
  transactions_sync :: "string \<Rightarrow> string option \<Rightarrow> error + sync_response"
  utcnow :: string
  loop_time :: nat

text \<open>
  The state: the dictionaries of the three objects, and Redis. Redis is split by key
  prefix, one field per prefix: \<^verbatim>\<open>sync_cursor:<user>\<close>, \<^verbatim>\<open>sync_cursor:keys\<close>,
  \<^verbatim>\<open>balances:<user>\<close>, \<^verbatim>\<open>sync_schedule:<user>\<close>, \<^verbatim>\<open>events:<type>\<close> and
  \<^verbatim>\<open>ws_events:<type>\<close>, each a map from the whole key. (The user id \<^verbatim>\<open>keys\<close>, whose
  cursor key would be the key of the key list, is outside the model.) The
  connection-state entries (prefix \<^verbatim>\<open>ws_conn\<close>) that \<^verbatim>\<open>connect\<close>, \<^verbatim>\<open>subscribe\<close> and
  \<^verbatim>\<open>disconnect\<close> write or delete are not kept: none of the methods below reads them, and
  of those writes only whether the await raises is modelled. Expiry of entries happens
  between calls, if at all. Dictionaries that the code iterates over are association
  lists in insertion order; a Python set of sockets is a list without repetitions, in
  the order the iteration visits it.
\<close>

record system =
  connections :: "(string \<times> websocket list) list"
  subscriptions :: "string \<rightharpoonup> string set"
  em_subscriptions :: "(string \<times> string set) list"
  sync_cursors :: "string \<rightharpoonup> string"
  sync_tasks :: "string \<rightharpoonup> schedule"
  cursor_cache :: "string \<rightharpoonup> string"
  cursor_keys :: "string list option"
  balances_cache :: "string \<rightharpoonup> balance list"
  schedule_cache :: "string \<rightharpoonup> schedule"
  event_cache :: "string \<rightharpoonup> event_message"
  ws_event_cache :: "string \<rightharpoonup> ws_payload"

section \<open>WebSocketManager\<close>

definition PING_INTERVAL :: nat where
  "PING_INTERVAL = 30"

definition PING_TIMEOUT :: nat where
  "PING_TIMEOUT = 10"

definition MAX_CONNECTIONS_PER_USER :: nat where
  "MAX_CONNECTIONS_PER_USER = 5"

text \<open>The sockets registered for a user (none if the user has no entry).\<close>

definition conns_of :: "system \<Rightarrow> string \<Rightarrow> websocket list" where
  "conns_of s user_id = (case map_of (connections s) user_id of None \<Rightarrow> [] | Some ws \<Rightarrow> ws)"

text \<open>\<^verbatim>\<open>set.add\<close> on the list that stands for a set.\<close>

definition set_add :: "'a \<Rightarrow> 'a list \<Rightarrow> 'a list" where
  "set_add x xs = (if x \<in> set xs then xs else xs @ [x])"

text \<open>
  \<^verbatim>\<open>connect\<close>: the token is verified, a user at the limit is turned away, the socket is
  accepted and registered; then the connection state goes to Redis, and if that await
  raises the method returns False with the socket already registered.
\<close>

definition connect :: "env \<Rightarrow> websocket \<Rightarrow> string \<Rightarrow> system \<Rightarrow> bool \<times> system" where
  "connect env websocket token s =
    (case verify_token env token of
       Inl e \<Rightarrow> (False, s)
     | Inr None \<Rightarrow> (False, s)
     | Inr (Some user_id) \<Rightarrow>
         if user_id = [] then (False, s)
         else if (case map_of (connections s) user_id of
                    None \<Rightarrow> False
                  | Some ws \<Rightarrow> length ws \<ge> MAX_CONNECTIONS_PER_USER) then (False, s)
         else if \<not> accept_ok env websocket then (False, s)
         else
           let s' = s\<lparr>connections :=
                       AList.update user_id (set_add websocket (conns_of s user_id)) (connections s)\<rparr>
           in if \<not> await_cache_ok env then (False, s') else (True, s'))"

text \<open>
  \<^verbatim>\<open>disconnect\<close>: \<^verbatim>\<open>set.remove\<close> raises KeyError for a socket that is not registered, and
  the handler then returns False with nothing changed. Otherwise the socket is removed
  (and the user's entry with its last socket), the user's subscriptions are deleted,
  and the Redis delete and the close follow; either may raise, after the registry has
  been changed.
\<close>

definition disconnect :: "env \<Rightarrow> websocket \<Rightarrow> string \<Rightarrow> system \<Rightarrow> bool \<times> system" where
  "disconnect env websocket user_id s =
    (case (case map_of (connections s) user_id of
             None \<Rightarrow> Inr (connections s)
           | Some ws \<Rightarrow>
               if websocket \<notin> set ws then Inl KeyError
               else if removeAll websocket ws = [] then Inr (AList.delete user_id (connections s))
               else Inr (AList.update user_id (removeAll websocket ws) (connections s))) of
       Inl e \<Rightarrow> (False, s)
     | Inr conns \<Rightarrow>
         let s' = s\<lparr>connections := conns, subscriptions := (subscriptions s)(user_id := None)\<rparr>
         in if \<not> await_cache_ok env then (False, s')
            else if \<not> close_ok env websocket then (False, s')
            else (True, s'))"

text \<open>A list or None is falsy in Python when it is None or empty.\<close>

definition truthy :: "'a list option \<Rightarrow> bool" where
  "truthy xs = (case xs of None \<Rightarrow> False | Some l \<Rightarrow> l \<noteq> [])"

definition make_ws_payload :: "env \<Rightarrow> string \<Rightarrow> payload \<Rightarrow> string list option \<Rightarrow> ws_payload" where
  "make_ws_payload env event_type message user_ids =
     \<lparr>ws_event = event_type, ws_data = message, ws_timestamp = utcnow env,
      ws_user_ids = (if truthy user_ids then user_ids else None)\<rparr>"

text \<open>\<^verbatim>\<open>await self._cache.set(key, value, ttl)\<close> on a key of the \<^verbatim>\<open>ws_events:\<close> prefix: the
  call stores if Redis answers; the await then returns or raises.\<close>

definition ws_event_cache_set :: "env \<Rightarrow> string \<Rightarrow> ws_payload \<Rightarrow> system \<Rightarrow> bool \<times> system" where
  "ws_event_cache_set env channel p s =
     (await_cache_ok env,
      if redis_ok env then s\<lparr>ws_event_cache := (ws_event_cache s)(channel \<mapsto> p)\<rparr> else s)"

definition WS_EVENT_CHANNEL_PREFIX :: string where
  "WS_EVENT_CHANNEL_PREFIX = ''ws_events''"

text \<open>\<^verbatim>\<open>broadcast\<close> only writes the payload to the event channel in Redis; every exception
  (of \<^verbatim>\<open>json.dumps\<close>, of the awaited write) is caught and gives False.\<close>

definition broadcast :: "env \<Rightarrow> string \<Rightarrow> payload \<Rightarrow> string list option \<Rightarrow> system \<Rightarrow> bool \<times> system" where
  "broadcast env event_type message user_ids s =
     (if \<not> json_ok env message then (False, s)
      else ws_event_cache_set env (WS_EVENT_CHANNEL_PREFIX @ '':'' @ event_type)
             (make_ws_payload env event_type message user_ids) s)"

definition valid_events :: "string set" where
  "valid_events = {''transaction'', ''budget'', ''goal'', ''notification''}"

definition subscribe :: "env \<Rightarrow> websocket \<Rightarrow> string \<Rightarrow> string list \<Rightarrow> system \<Rightarrow> bool \<times> system" where
  "subscribe env websocket user_id event_types s =
    (if \<not> list_all (\<lambda>event. event \<in> valid_events) event_types then (False, s)
     else
       let s' = s\<lparr>subscriptions := (subscriptions s)(user_id \<mapsto>
                   (case subscriptions s user_id of None \<Rightarrow> {} | Some types \<Rightarrow> types)
                     \<union> set event_types)\<rparr>
       in if \<not> await_cache_ok env then (False, s') else (True, s'))"

text \<open>
  The inner loop of \<^verbatim>\<open>_distribute_message\<close> over one user's sockets. The result is the
  list of sends that went through, the exception that left the loop (if any), and the
  state. A send that raises ConnectionClosed disconnects the socket; that removes it
  from the very set the loop iterates, so the next step of the iteration raises
  RuntimeError (set changed size during iteration). Any other exception of the send
  leaves the loop at once.
\<close>

fun send_to_connections ::
  "env \<Rightarrow> string \<Rightarrow> websocket list \<Rightarrow> system \<Rightarrow> (string \<times> websocket) list \<times> error option \<times> system" where
  "send_to_connections env user_id [] s = ([], None, s)"
| "send_to_connections env user_id (w # ws) s =
    (case send_json env w of
       Sent \<Rightarrow>
         (case send_to_connections env user_id ws s of
            (ds, e, s') \<Rightarrow> ((user_id, w) # ds, e, s'))
     | SendClosed \<Rightarrow>
         if w \<in> set (conns_of s user_id)
         then ([], Some RuntimeError, snd (disconnect env w user_id s))
         else send_to_connections env user_id ws (snd (disconnect env w user_id s))
     | SendFailed \<Rightarrow> ([], Some OtherException, s))"

text \<open>Whether the user is subscribed to the event type, in WebSocketManager's registry.\<close>

definition subscribed :: "system \<Rightarrow> string \<Rightarrow> string \<Rightarrow> bool" where
  "subscribed s user_id event_type =
     (case subscriptions s user_id of None \<Rightarrow> False | Some types \<Rightarrow> event_type \<in> types)"

text \<open>Whether the loop skips the user: \<^verbatim>\<open>if user_ids and user_id not in user_ids: continue\<close>.\<close>

definition not_targeted :: "string list option \<Rightarrow> string \<Rightarrow> bool" where
  "not_targeted user_ids user_id =
     (case user_ids of None \<Rightarrow> False | Some l \<Rightarrow> l \<noteq> [] \<and> user_id \<notin> set l)"

fun distribute_items ::
  "env \<Rightarrow> ws_payload \<Rightarrow> (string \<times> websocket list) list \<Rightarrow> system
     \<Rightarrow> (string \<times> websocket) list \<times> error option \<times> system" where
  "distribute_items env p [] s = ([], None, s)"
| "distribute_items env p ((user_id, conns) # rest) s =
    (if not_targeted (ws_user_ids p) user_id then distribute_items env p rest s
     else if subscribed s user_id (ws_event p) then
       (case send_to_connections env user_id conns s of
          (ds, Some e, s') \<Rightarrow> (ds, Some e, s')
        | (ds, None, s') \<Rightarrow>
            (case distribute_items env p rest s' of
               (ds', e', s'') \<Rightarrow> (ds @ ds', e', s'')))
     else distribute_items env p rest s)"

definition distribute_message ::
  "env \<Rightarrow> ws_payload \<Rightarrow> system \<Rightarrow> (string \<times> websocket) list \<times> error option \<times> system" where
  "distribute_message env p s =
     (if ws_event p = [] then ([], None, s)
      else distribute_items env p (connections s) s)"

text \<open>
  \<^verbatim>\<open>_monitor_heartbeat\<close>, one element of the list per turn of its loop: what the ping's
  send did and what the wait for an answer gave. The loop goes on after any message
  that arrives in time and disconnects on everything else; the result says whether the
  monitor is still running when the list ends.
\<close>

fun monitor_heartbeat ::
  "env \<Rightarrow> (send_result \<times> recv_result) list \<Rightarrow> websocket \<Rightarrow> string \<Rightarrow> system \<Rightarrow> bool \<times> system" where
  "monitor_heartbeat env [] websocket user_id s = (True, s)"
| "monitor_heartbeat env ((ping, answer) # rounds) websocket user_id s =
    (case ping of
       Sent \<Rightarrow>
         (case answer of
            Received m \<Rightarrow> monitor_heartbeat env rounds websocket user_id s
          | RecvTimeout \<Rightarrow> (False, snd (disconnect env websocket user_id s))
          | RecvClosed \<Rightarrow> (False, snd (disconnect env websocket user_id s))
          | RecvFailed \<Rightarrow> (False, snd (disconnect env websocket user_id s)))
     | SendClosed \<Rightarrow> (False, snd (disconnect env websocket user_id s))
     | SendFailed \<Rightarrow> (False, snd (disconnect env websocket user_id s)))"

section \<open>EventManager\<close>

definition EVENT_TYPES :: "(string \<times> string) list" where
  "EVENT_TYPES =
     [(''ACCOUNT_UPDATE'', ''account.update''),
      (''TRANSACTION_CREATE'', ''transaction.create''),
      (''BUDGET_UPDATE'', ''budget.update''),
      (''GOAL_UPDATE'', ''goal.update''),
      (''INVESTMENT_UPDATE'', ''investment.update'')]"

definition EVENT_TTL :: nat where
  "EVENT_TTL = 3600"

definition EVENT_CHANNEL_PREFIX :: string where
  "EVENT_CHANNEL_PREFIX = ''events''"

definition create_event_channel :: "string \<Rightarrow> error + string" where
  "create_event_channel event_type =
     (if event_type \<notin> set (map snd EVENT_TYPES) then Inl ValueError
      else Inr (EVENT_CHANNEL_PREFIX @ '':'' @ event_type))"

definition event_cache_set :: "env \<Rightarrow> string \<Rightarrow> event_message \<Rightarrow> system \<Rightarrow> bool \<times> system" where
  "event_cache_set env channel m s =
     (await_cache_ok env,
      if redis_ok env then s\<lparr>event_cache := (event_cache s)(channel \<mapsto> m)\<rparr> else s)"

text \<open>
  \<^verbatim>\<open>publish_event\<close>: the whole body is inside \<^verbatim>\<open>try ... except Exception: return False\<close>.
  An unknown type raises ValueError; \<^verbatim>\<open>json.dumps\<close> or the awaited cache write may
  raise; \<^verbatim>\<open>broadcast\<close> never raises and its result is not looked at.
\<close>

definition publish_event :: "env \<Rightarrow> string \<Rightarrow> payload \<Rightarrow> string list option \<Rightarrow> system \<Rightarrow> bool \<times> system" where
  "publish_event env event_type p user_ids s =
    (if event_type \<notin> set (map snd EVENT_TYPES) then (False, s)
     else
       (case create_event_channel event_type of
          Inl e \<Rightarrow> (False, s)
        | Inr channel \<Rightarrow>
            if \<not> json_ok env p then (False, s)
            else
              (case event_cache_set env channel
                      \<lparr>ev_type = event_type, ev_payload = p, ev_timestamp = loop_time env,
                       ev_target_users = user_ids\<rparr> s of
                 (False, s') \<Rightarrow> (False, s')
               | (True, s') \<Rightarrow> (True, snd (broadcast env event_type p user_ids s')))))"

text \<open>The loop of \<^verbatim>\<open>handle_event\<close> over EventManager's subscription registry: the users
  subscribed to the type and, if the event is targeted, among its targets. (The code
  collects them in a set; the list here is in registry order.)\<close>

definition event_subscribers :: "system \<Rightarrow> string \<Rightarrow> string list option \<Rightarrow> string list" where
  "event_subscribers s event_type target_users =
     map fst (filter (\<lambda>(user_id, subscribed_types).
                event_type \<in> subscribed_types \<and>
                (case target_users of
                   None \<Rightarrow> True
                 | Some l \<Rightarrow> l = [] \<or> user_id \<in> set l))
              (em_subscriptions s))"

text \<open>\<^verbatim>\<open>handle_event\<close>; the message is given as \<^verbatim>\<open>json.loads\<close> reads it (None: it raises,
  and the handler returns).\<close>

definition handle_event :: "env \<Rightarrow> string \<Rightarrow> event_message option \<Rightarrow> system \<Rightarrow> system" where
  "handle_event env channel message s =
    (case message of
       None \<Rightarrow> s
     | Some event_data \<Rightarrow>
         if ev_type event_data = [] then s
         else if event_subscribers s (ev_type event_data) (ev_target_users event_data) \<noteq> []
         then snd (broadcast env (ev_type event_data) (ev_payload event_data)
                     (Some (event_subscribers s (ev_type event_data) (ev_target_users event_data))) s)
         else s)"

section \<open>RedisCache and PlaidService\<close>

text \<open>The synchronous cache calls of SyncService: a Redis error is caught inside the
  cache, \<^verbatim>\<open>get\<close> then returns None, \<^verbatim>\<open>set\<close> and \<^verbatim>\<open>delete\<close> change nothing.\<close>

definition cache_get :: "env \<Rightarrow> ('k \<rightharpoonup> 'v) \<Rightarrow> 'k \<Rightarrow> 'v option" where
  "cache_get env m k = (if redis_ok env then m k else None)"

definition cache_set :: "env \<Rightarrow> ('k \<rightharpoonup> 'v) \<Rightarrow> 'k \<Rightarrow> 'v \<Rightarrow> ('k \<rightharpoonup> 'v)" where
  "cache_set env m k v = (if redis_ok env then m(k \<mapsto> v) else m)"

definition cache_delete :: "env \<Rightarrow> ('k \<rightharpoonup> 'v) \<Rightarrow> 'k \<Rightarrow> ('k \<rightharpoonup> 'v)" where
  "cache_delete env m k = (if redis_ok env then m(k := None) else m)"

text \<open>\<^verbatim>\<open>PlaidService.get_balances\<close>: every account of the response becomes a balance entry
  stamped with the time of the call.\<close>

definition get_balances :: "env \<Rightarrow> string \<Rightarrow> error + balance list" where
  "get_balances env access_token =
    (case accounts_get env access_token of
       Inl e \<Rightarrow> Inl e
     | Inr accounts \<Rightarrow>
         Inr (map (\<lambda>a. \<lparr>bal_account_id = acc_account_id a, bal_current = acc_current a,
                         bal_available = acc_available a, bal_limit = acc_limit a,
                         bal_last_updated = utcnow env\<rparr>) accounts))"

text \<open>\<^verbatim>\<open>PlaidService.sync_transactions\<close>: the added transactions of the response and its
  next cursor; the modified and removed ones are only counted for the log.\<close>

definition plaid_sync_transactions :: "env \<Rightarrow> string \<Rightarrow> string option \<Rightarrow> error + txn list \<times> string" where
  "plaid_sync_transactions env access_token cursor =
    (case transactions_sync env access_token cursor of
       Inl e \<Rightarrow> Inl e
     | Inr response \<Rightarrow> Inr (added response, next_cursor response))"

section \<open>SyncService\<close>

definition SYNC_CURSOR_PREFIX :: string where
  "SYNC_CURSOR_PREFIX = ''sync_cursor:''"

definition DEFAULT_SYNC_INTERVAL :: int where
  "DEFAULT_SYNC_INTERVAL = 60"

record account_sync_result =
  as_user_id :: string
  as_balances :: "balance list"
  changes_detected :: bool
  as_sync_time :: string

record transaction_sync_result =
  ts_user_id :: string
  new_transactions :: nat
  ts_cursor :: string
  ts_sync_time :: string

definition save_sync_cursor :: "env \<Rightarrow> string \<Rightarrow> string \<Rightarrow> system \<Rightarrow> system" where
  "save_sync_cursor env user_id cursor s =
    (let s1 = s\<lparr>sync_cursors := (sync_cursors s)(user_id \<mapsto> cursor),
                cursor_cache := cache_set env (cursor_cache s) (SYNC_CURSOR_PREFIX @ user_id) cursor\<rparr>;
         keys = (case (if redis_ok env then cursor_keys s1 else None) of
                   None \<Rightarrow> [] | Some ks \<Rightarrow> ks)
     in if user_id \<notin> set keys
        then s1\<lparr>cursor_keys := (if redis_ok env then Some (keys @ [user_id]) else cursor_keys s1)\<rparr>
        else s1)"

text \<open>
  \<^verbatim>\<open>sync_account_data\<close>: the fetched list is compared with the cached one as a whole
  (\<^verbatim>\<open>not cached_balances or balances != cached_balances\<close>), time stamps included. The only
  exception is that of the fetch, raised again before anything is written.
\<close>

definition sync_account_data ::
  "env \<Rightarrow> string \<Rightarrow> string \<Rightarrow> system \<Rightarrow> (error + account_sync_result) \<times> system" where
  "sync_account_data env user_id access_token s =
    (case get_balances env access_token of
       Inl e \<Rightarrow> (Inl e, s)
     | Inr balances \<Rightarrow>
         let cache_key = ''balances:'' @ user_id;
             cached_balances = cache_get env (balances_cache s) cache_key;
             changed = (\<not> truthy cached_balances \<or> Some balances \<noteq> cached_balances);
             s' = (if changed
                   then snd (publish_event env ''account.update'' (AccountPayload user_id balances)
                               (Some [user_id])
                               (s\<lparr>balances_cache :=
                                    cache_set env (balances_cache s) cache_key balances\<rparr>))
                   else s)
         in (Inr \<lparr>as_user_id = user_id, as_balances = balances, changes_detected = changed,
                   as_sync_time = utcnow env\<rparr>, s'))"

text \<open>
  \<^verbatim>\<open>sync_transactions\<close>: the cursor is read from the dictionary in memory, the
  aggregator is called, a non-empty next cursor is saved, and then the added
  transactions, if any, are published; the result counts them all.
\<close>

definition sync_transactions ::
  "env \<Rightarrow> string \<Rightarrow> string \<Rightarrow> system \<Rightarrow> (error + transaction_sync_result) \<times> system" where
  "sync_transactions env user_id access_token s =
    (case plaid_sync_transactions env access_token (sync_cursors s user_id) of
       Inl e \<Rightarrow> (Inl e, s)
     | Inr (transactions, next) \<Rightarrow>
         let s1 = (if next \<noteq> [] then save_sync_cursor env user_id next s else s);
             s2 = (if transactions \<noteq> []
                   then snd (publish_event env ''transaction.create''
                               (TransactionsPayload user_id transactions) (Some [user_id]) s1)
                   else s1)
         in (Inr \<lparr>ts_user_id = user_id, new_transactions = length transactions,
                   ts_cursor = next, ts_sync_time = utcnow env\<rparr>, s2))"

definition cancel_sync :: "env \<Rightarrow> string \<Rightarrow> system \<Rightarrow> bool \<times> system" where
  "cancel_sync env user_id s =
     (True, s\<lparr>sync_tasks := (sync_tasks s)(user_id := None),
              schedule_cache := cache_delete env (schedule_cache s) (''sync_schedule:'' @ user_id)\<rparr>)"

text \<open>\<^verbatim>\<open>schedule_sync\<close>; the task it creates is kept as the schedule its closure holds, and
  \<open>sync_task\<close> below is what the task runs.\<close>

definition schedule_sync :: "env \<Rightarrow> string \<Rightarrow> string list \<Rightarrow> int \<Rightarrow> system \<Rightarrow> bool \<times> system" where
  "schedule_sync env user_id access_tokens interval_minutes s =
    (let interval = (if interval_minutes < DEFAULT_SYNC_INTERVAL then DEFAULT_SYNC_INTERVAL
                     else interval_minutes);
         s1 = snd (cancel_sync env user_id s);
         sched = \<lparr>sch_user_id = user_id, sch_access_tokens = access_tokens,
                  sch_interval = interval, sch_last_sync = None\<rparr>;
         s2 = s1\<lparr>schedule_cache :=
                   cache_set env (schedule_cache s1) (''sync_schedule:'' @ user_id) sched\<rparr>
     in (True, s2\<lparr>sync_tasks := (sync_tasks s2)(user_id \<mapsto> sched)\<rparr>))"

text \<open>The \<^verbatim>\<open>for token in access_tokens\<close> loop of the task: the first exception leaves it.\<close>

fun sync_tokens :: "env \<Rightarrow> string \<Rightarrow> string list \<Rightarrow> system \<Rightarrow> error option \<times> system" where
  "sync_tokens env user_id [] s = (None, s)"
| "sync_tokens env user_id (token # tokens) s =
    (case sync_account_data env user_id token s of
       (Inl e, s1) \<Rightarrow> (Some e, s1)
     | (Inr r, s1) \<Rightarrow>
         (case sync_transactions env user_id token s1 of
            (Inl e, s2) \<Rightarrow> (Some e, s2)
          | (Inr r', s2) \<Rightarrow> sync_tokens env user_id tokens s2))"

text \<open>
  The \<^verbatim>\<open>while True\<close> loop of \<^verbatim>\<open>sync_task\<close>, one environment per turn. A turn that raises
  sleeps 60 seconds; a turn that does not stores the time of the sync and sleeps the
  interval. The loop has no exit: it has made one turn for every environment of the
  list. The result lists the sleeps, in seconds.
\<close>

fun sync_task :: "env list \<Rightarrow> schedule \<Rightarrow> system \<Rightarrow> int list \<times> schedule \<times> system" where
  "sync_task [] sched s = ([], sched, s)"
| "sync_task (env # envs) sched s =
    (case sync_tokens env (sch_user_id sched) (sch_access_tokens sched) s of
       (Some e, s1) \<Rightarrow>
         (case sync_task envs sched s1 of
            (sleeps, sched', s') \<Rightarrow> (60 # sleeps, sched', s'))
     | (None, s1) \<Rightarrow>
         (case sync_task envs (sched\<lparr>sch_last_sync := Some (utcnow env)\<rparr>)
                 (s1\<lparr>schedule_cache :=
                       cache_set env (schedule_cache s1) (''sync_schedule:'' @ sch_user_id sched)
                         (sched\<lparr>sch_last_sync := Some (utcnow env)\<rparr>)\<rparr>) of
            (sleeps, sched', s') \<Rightarrow> (sch_interval sched * 60 # sleeps, sched', s')))"

section \<open>The calls of the three services, and example values\<close>

text \<open>Every public method and background loop above as one call; \<open>run\<close> performs a
  sequence of calls, each under its own environment.\<close>

datatype call =
    Connect websocket string
  | Disconnect websocket string
  | Subscribe websocket string "string list"
  | Broadcast string payload "string list option"
  | DistributeMessage ws_payload
  | MonitorHeartbeat "(send_result \<times> recv_result) list" websocket string
  | PublishEvent string payload "string list option"
  | HandleEvent string "event_message option"
  | SyncAccountData string string
  | SyncTransactions string string
  | ScheduleSync string "string list" int
  | CancelSync string
  | SyncTask "env list" schedule

fun perform :: "env \<Rightarrow> call \<Rightarrow> system \<Rightarrow> system" where
  "perform env (Connect w token) s = snd (connect env w token s)"
| "perform env (Disconnect w user_id) s = snd (disconnect env w user_id s)"
| "perform env (Subscribe w user_id event_types) s = snd (subscribe env w user_id event_types s)"
| "perform env (Broadcast event_type message user_ids) s =
     snd (broadcast env event_type message user_ids s)"
| "perform env (DistributeMessage p) s = snd (snd (distribute_message env p s))"
| "perform env (MonitorHeartbeat rounds w user_id) s = snd (monitor_heartbeat env rounds w user_id s)"
| "perform env (PublishEvent event_type p user_ids) s = snd (publish_event env event_type p user_ids s)"
| "perform env (HandleEvent channel message) s = handle_event env channel message s"
| "perform env (SyncAccountData user_id token) s = snd (sync_account_data env user_id token s)"
| "perform env (SyncTransactions user_id token) s = snd (sync_transactions env user_id token s)"
| "perform env (ScheduleSync user_id tokens interval) s = snd (schedule_sync env user_id tokens interval s)"
| "perform env (CancelSync user_id) s = snd (cancel_sync env user_id s)"
| "perform env (SyncTask envs sched) s = snd (snd (sync_task envs sched s))"

fun run :: "(env \<times> call) list \<Rightarrow> system \<Rightarrow> system" where
  "run [] s = s"
| "run ((env, c) # calls) s = run calls (perform env c s)"

text \<open>The state after the three constructors, with an empty Redis.\<close>

definition initial :: system where
  "initial =
     \<lparr>connections = [], subscriptions = Map.empty, em_subscriptions = [],
      sync_cursors = Map.empty, sync_tasks = Map.empty, cursor_cache = Map.empty,
      cursor_keys = None, balances_cache = Map.empty, schedule_cache = Map.empty,
      event_cache = Map.empty, ws_event_cache = Map.empty\<rparr>"

text \<open>No user has more than \<open>MAX_CONNECTIONS_PER_USER\<close> registered sockets.\<close>

definition within_limit :: "system \<Rightarrow> bool" where
  "within_limit s =
     list_all (\<lambda>(user_id, ws). length ws \<le> MAX_CONNECTIONS_PER_USER) (connections s)"

text \<open>An environment in which nothing fails: a token names its user, and the aggregator
  reports one account and one added transaction with next cursor \<^verbatim>\<open>c1\<close>.\<close>

definition example_env :: env where
  "example_env =
     \<lparr>verify_token = (\<lambda>token. Inr (Some token)),
      accept_ok = (\<lambda>w. True),
      close_ok = (\<lambda>w. True),
      send_json = (\<lambda>w. Sent),
      redis_ok = True,
      await_cache_ok = True,
      json_ok = (\<lambda>p. True),
      accounts_get = (\<lambda>token. Inr [\<lparr>acc_account_id = ''acc_1'', acc_current = Some 1000,
                                       acc_available = Some 950, acc_limit = None\<rparr>]),
      transactions_sync = (\<lambda>token cursor. Inr
         \<lparr>added = [\<lparr>txn_id = ''tx_1'', txn_account_id = ''acc_1'', txn_amount = 50,
                    txn_date = ''2023-01-01'', txn_name = ''Test Transaction'',
                    txn_merchant_name = Some ''Test Merchant'',
                    txn_category = Some [''Food'', ''Restaurants''], txn_pending = False\<rparr>],
          modified = [], removed = [], next_cursor = ''c1''\<rparr>),
      utcnow = ''2024-01-01T00:00:00'',
      loop_time = 0\<rparr>"

text \<open>Every registered socket with its user, in the order \<^verbatim>\<open>_distribute_message\<close> visits them.\<close>

definition live_connections :: "system \<Rightarrow> (string \<times> websocket) list" where
  "live_connections s =
     concat (map (\<lambda>(user_id, ws). map (Pair user_id) ws) (connections s))"

text \<open>A state with three users: A with two sockets, B and C with one each; A and C are
  subscribed to the goal events in both registries, B to nothing.\<close>

definition example_state :: system where
  "example_state =
     initial\<lparr>connections := [(''A'', [1, 2]), (''B'', [3]), (''C'', [4])],
             subscriptions := [''A'' \<mapsto> {''goal''}, ''C'' \<mapsto> {''goal''}],
             em_subscriptions := [(''A'', {''goal.update''}), (''C'', {''goal.update''})]\<rparr>"

text \<open>A state in which the user's cursor already is the one the example aggregator
  returns next.\<close>

definition synced_state :: system where
  "synced_state = initial\<lparr>sync_cursors := [''alice'' \<mapsto> ''c1'']\<rparr>"

text \<open>An environment in which every balance fetch raises, and a schedule for one user
  with one access token.\<close>

definition failing_env :: env where
  "failing_env = example_env\<lparr>accounts_get := \<lambda>token. Inl ApiException\<rparr>"

definition example_schedule :: schedule where
  "example_schedule =
     \<lparr>sch_user_id = ''alice'', sch_access_tokens = [''tok''], sch_interval = 60,
      sch_last_sync = None\<rparr>"


text \<open>An environment in which every transaction sync raises.\<close>

definition txn_failing_env :: env where
  "txn_failing_env = example_env\<lparr>transactions_sync := \<lambda>token cursor. Inl ApiException\<rparr>"

section \<open>Frame lemmas: what leaves the connection registry alone\<close>

lemma list_all_update:
  "list_all P al \<Longrightarrow> P (k, v) \<Longrightarrow> list_all P (AList.update k v al)"
  by (induction al) auto

lemma list_all_delete: "list_all P al \<Longrightarrow> list_all P (AList.delete k al)"
  by (induction al) auto

lemma list_all_map_of: "list_all P al \<Longrightarrow> map_of al k = Some v \<Longrightarrow> P (k, v)"
  by (auto simp: list_all_iff dest: map_of_SomeD)

lemma length_set_add: "length (set_add x xs) \<le> Suc (length xs)"
  by (simp add: set_add_def)

lemma connections_broadcast [simp]:
  "connections (snd (broadcast env t m us s)) = connections s"
  by (simp add: broadcast_def ws_event_cache_set_def)

lemma connections_publish_event [simp]:
  "connections (snd (publish_event env t p us s)) = connections s"
  by (simp add: publish_event_def event_cache_set_def create_event_channel_def split: bool.splits)

lemma connections_handle_event [simp]:
  "connections (handle_event env ch m s) = connections s"
  by (simp add: handle_event_def split: option.splits)

lemma connections_subscribe [simp]:
  "connections (snd (subscribe env w u ts s)) = connections s"
  by (simp add: subscribe_def Let_def)

lemma connections_save_sync_cursor [simp]:
  "connections (save_sync_cursor env u c s) = connections s"
  by (simp add: save_sync_cursor_def Let_def)

lemma connections_sync_account_data [simp]:
  "connections (snd (sync_account_data env u tok s)) = connections s"
  by (cases "get_balances env tok") (simp_all add: sync_account_data_def Let_def)

lemma connections_sync_transactions [simp]:
  "connections (snd (sync_transactions env u tok s)) = connections s"
  by (cases "plaid_sync_transactions env tok (sync_cursors s u)")
     (simp_all add: sync_transactions_def Let_def split: prod.splits)

lemma connections_cancel_sync [simp]:
  "connections (snd (cancel_sync env u s)) = connections s"
  by (simp add: cancel_sync_def)

lemma connections_schedule_sync [simp]:
  "connections (snd (schedule_sync env u toks i s)) = connections s"
  by (simp add: schedule_sync_def Let_def cancel_sync_def)


lemma connections_sync_tokens [simp]:
  "connections (snd (sync_tokens env u toks s)) = connections s"
proof (induction toks arbitrary: s)
  case Nil
  show ?case by simp
next
  case (Cons tok toks)
  obtain r1 s1 where a: "sync_account_data env u tok s = (r1, s1)" by (cases "sync_account_data env u tok s")
  obtain r2 s2 where b: "sync_transactions env u tok s1 = (r2, s2)" by (cases "sync_transactions env u tok s1")
  have c1: "connections s1 = connections s" using connections_sync_account_data[of env u tok s] a by simp
  have c2: "connections s2 = connections s1" using connections_sync_transactions[of env u tok s1] b by simp
  show ?case
    using a b c1 c2 Cons.IH[of s2] by (cases r1; cases r2) simp_all
qed


lemma connections_sync_task [simp]:
  "connections (snd (snd (sync_task envs sched s))) = connections s"
proof (induction envs arbitrary: sched s)
  case Nil
  show ?case by simp
next
  case (Cons env envs)
  obtain r s1 where a: "sync_tokens env (sch_user_id sched) (sch_access_tokens sched) s = (r, s1)"
    by (cases "sync_tokens env (sch_user_id sched) (sch_access_tokens sched) s")
  have c1: "connections s1 = connections s"
    using connections_sync_tokens[of env "sch_user_id sched" "sch_access_tokens sched" s] a by simp
  show ?case
  proof (cases r)
    case None
    then show ?thesis
      using a c1
        Cons.IH[of "sched\<lparr>sch_last_sync := Some (utcnow env)\<rparr>"
          "s1\<lparr>schedule_cache :=
                cache_set env (schedule_cache s1) (''sync_schedule:'' @ sch_user_id sched)
                  (sched\<lparr>sch_last_sync := Some (utcnow env)\<rparr>)\<rparr>"]
      by (auto split: prod.splits)
  next
    case (Some e)
    then show ?thesis using a c1 Cons.IH[of sched s1] by (auto split: prod.splits)
  qed
qed

section \<open>The connection cap\<close>

lemma within_limit_connect: "within_limit s \<Longrightarrow> within_limit (snd (connect env w token s))"
proof -
  assume inv: "within_limit s"
  have step: "within_limit (s\<lparr>connections :=
        AList.update u (set_add w (conns_of s u)) (connections s)\<rparr>)"
    if "\<not> (case map_of (connections s) u of None \<Rightarrow> False
            | Some ws \<Rightarrow> length ws \<ge> MAX_CONNECTIONS_PER_USER)" for u
  proof -
    have "length (conns_of s u) < MAX_CONNECTIONS_PER_USER"
      using that by (auto simp: conns_of_def MAX_CONNECTIONS_PER_USER_def split: option.splits)
    then have "length (set_add w (conns_of s u)) \<le> MAX_CONNECTIONS_PER_USER"
      using length_set_add[of w "conns_of s u"] by linarith
    then show ?thesis
      using inv by (simp add: within_limit_def list_all_update)
  qed
  show ?thesis
    using inv step
    by (auto simp: connect_def Let_def split: sum.splits option.splits)
qed

lemma within_limit_disconnect:
  "within_limit s \<Longrightarrow> within_limit (snd (disconnect env w u s))"
proof -
  assume inv: "within_limit s"
  have upd: "list_all (\<lambda>(user_id, ws). length ws \<le> MAX_CONNECTIONS_PER_USER)
               (AList.update u (removeAll w ws) (connections s))"
    if "map_of (connections s) u = Some ws" for ws
  proof -
    have "length ws \<le> MAX_CONNECTIONS_PER_USER"
      using list_all_map_of[OF inv[unfolded within_limit_def] that] by simp
    moreover have "length (removeAll w ws) \<le> length ws" by simp
    ultimately have "length (removeAll w ws) \<le> MAX_CONNECTIONS_PER_USER" by linarith
    then show ?thesis
      using inv by (intro list_all_update) (simp_all add: within_limit_def)
  qed
  show ?thesis
    using inv upd
    by (auto simp: disconnect_def Let_def within_limit_def list_all_delete split: option.splits)
qed

lemma within_limit_send_to_connections:
  "within_limit s \<Longrightarrow> within_limit (snd (snd (send_to_connections env u ws s)))"
proof (induction ws arbitrary: s)
  case Nil
  then show ?case by simp
next
  case (Cons w ws)
  show ?case
  proof (cases "send_json env w")
    case Sent
    obtain ds e s' where r: "send_to_connections env u ws s = (ds, e, s')"
      by (cases "send_to_connections env u ws s")
    show ?thesis using Sent r Cons.IH[OF Cons.prems] by simp
  next
    case SendClosed
    then show ?thesis
      using Cons.IH[OF within_limit_disconnect[OF Cons.prems]] within_limit_disconnect[OF Cons.prems]
      by simp
  next
    case SendFailed
    then show ?thesis using Cons.prems by simp
  qed
qed

lemma within_limit_distribute_items:
  "within_limit s \<Longrightarrow> within_limit (snd (snd (distribute_items env p items s)))"
proof (induction items arbitrary: s)
  case Nil
  then show ?case by simp
next
  case (Cons item items)
  obtain u conns where item: "item = (u, conns)" by (cases item)
  obtain ds e s1 where send: "send_to_connections env u conns s = (ds, e, s1)"
    by (cases "send_to_connections env u conns s")
  have s1: "within_limit s1"
    using within_limit_send_to_connections[OF Cons.prems, of env u conns] send by simp
  obtain ds' e' s2 where rest: "distribute_items env p items s1 = (ds', e', s2)"
    by (cases "distribute_items env p items s1")
  show ?case
    using item send s1 rest Cons.IH[OF Cons.prems] Cons.IH[OF s1]
    by (cases e) simp_all
qed

lemma within_limit_distribute_message:
  "within_limit s \<Longrightarrow> within_limit (snd (snd (distribute_message env p s)))"
  by (simp add: distribute_message_def within_limit_distribute_items)

lemma within_limit_monitor_heartbeat:
  "within_limit s \<Longrightarrow> within_limit (snd (monitor_heartbeat env rounds w u s))"
proof (induction rounds)
  case Nil
  then show ?case by simp
next
  case (Cons r rounds)
  obtain ping answer where r: "r = (ping, answer)" by (cases r)
  show ?case
    using Cons within_limit_disconnect[OF Cons.prems, of env w u]
    by (cases ping; cases answer) (simp_all add: r)
qed

lemma within_limit_cong: "connections s' = connections s \<Longrightarrow> within_limit s \<Longrightarrow> within_limit s'"
  by (simp add: within_limit_def)

lemma within_limit_perform: "within_limit s \<Longrightarrow> within_limit (perform env c s)"
proof (cases c)
  case (Connect w token)
  then show "within_limit s \<Longrightarrow> ?thesis" by (simp add: within_limit_connect)
next
  case (Disconnect w u)
  then show "within_limit s \<Longrightarrow> ?thesis" by (simp add: within_limit_disconnect)
next
  case (DistributeMessage p)
  then show "within_limit s \<Longrightarrow> ?thesis" by (simp add: within_limit_distribute_message)
next
  case (MonitorHeartbeat rounds w u)
  then show "within_limit s \<Longrightarrow> ?thesis" by (simp add: within_limit_monitor_heartbeat)
qed (auto intro: within_limit_cong)

lemma within_limit_run: "within_limit s \<Longrightarrow> within_limit (run calls s)"
  by (induction calls arbitrary: s) (auto simp: within_limit_perform)

lemma within_limit_initial: "within_limit initial"
  by (simp add: within_limit_def initial_def)

lemma connect_at_limit:
  assumes "verify_token env token = Inr (Some user_id)"
    and "MAX_CONNECTIONS_PER_USER \<le> length (conns_of s user_id)"
  shows "connect env websocket token s = (False, s)"
  using assms
  by (auto simp: connect_def conns_of_def MAX_CONNECTIONS_PER_USER_def split: option.splits)


lemma within_limit_conns_of:
  "within_limit s \<Longrightarrow> length (conns_of s user_id) \<le> MAX_CONNECTIONS_PER_USER"
  by (cases "map_of (connections s) user_id")
     (auto simp: conns_of_def within_limit_def dest: list_all_map_of)

text \<open>
  C6. The connection cap. In every state reached from the initial one by any sequence
  of calls, each under any environment, no user has more than
  \<open>MAX_CONNECTIONS_PER_USER = 5\<close> registered sockets; every single call keeps the bound;
  and \<open>connect\<close> for a user who already has five returns False and leaves the state as
  it was.
\<close>

theorem connection_limit:
  "MAX_CONNECTIONS_PER_USER = 5 \<and>
   length (conns_of (run calls initial) user_id) \<le> MAX_CONNECTIONS_PER_USER \<and>
   (within_limit s \<longrightarrow> within_limit (perform env c s)) \<and>
   (verify_token env token = Inr (Some user) \<and>
      MAX_CONNECTIONS_PER_USER \<le> length (conns_of s user)
      \<longrightarrow> connect env websocket token s = (False, s))"
  using within_limit_conns_of[OF within_limit_run[OF within_limit_initial]]
    within_limit_perform connect_at_limit
  by (simp add: MAX_CONNECTIONS_PER_USER_def)

theorem connection_limit_witness:
  "conns_of (run [(example_env, Connect 1 ''alice''), (example_env, Connect 2 ''alice''),
                  (example_env, Connect 3 ''alice''), (example_env, Connect 4 ''alice''),
                  (example_env, Connect 5 ''alice''), (example_env, Connect 6 ''alice'')]
               initial) ''alice'' = [1, 2, 3, 4, 5] \<and>
   within_limit initial \<and>
   within_limit (perform example_env (Connect 1 ''alice'') initial) \<and>
   verify_token example_env ''alice'' = Inr (Some ''alice'') \<and>
   MAX_CONNECTIONS_PER_USER \<le>
     length (conns_of (initial\<lparr>connections := [(''alice'', [1, 2, 3, 4, 5])]\<rparr>) ''alice'') \<and>
   connect example_env 6 ''alice'' (initial\<lparr>connections := [(''alice'', [1, 2, 3, 4, 5])]\<rparr>)
     = (False, initial\<lparr>connections := [(''alice'', [1, 2, 3, 4, 5])]\<rparr>)"
proof -
  have h1: "within_limit initial"
    by (simp add: within_limit_def initial_def)
  have h2: "verify_token example_env ''alice'' = Inr (Some ''alice'')"
    by (simp add: example_env_def)
  have h3: "MAX_CONNECTIONS_PER_USER \<le>
     length (conns_of (initial\<lparr>connections := [(''alice'', [1, 2, 3, 4, 5])]\<rparr>) ''alice'')"
    by (simp add: MAX_CONNECTIONS_PER_USER_def conns_of_def)
  have h4: "conns_of (run [(example_env, Connect 1 ''alice''), (example_env, Connect 2 ''alice''),
                  (example_env, Connect 3 ''alice''), (example_env, Connect 4 ''alice''),
                  (example_env, Connect 5 ''alice''), (example_env, Connect 6 ''alice'')]
               initial) ''alice'' = [1, 2, 3, 4, 5]"
    by (simp add: connect_def example_env_def initial_def conns_of_def set_add_def
          MAX_CONNECTIONS_PER_USER_def Let_def)
  show ?thesis
    using h1 h2 h3 h4
      connection_limit[where calls = "[]" and user_id = "''alice''" and s = initial
        and env = example_env and c = "Connect 1 ''alice''" and token = "''alice''"
        and user = "''alice''" and websocket = 6]
      connection_limit[where calls = "[]" and user_id = "''alice''"
        and s = "initial\<lparr>connections := [(''alice'', [1, 2, 3, 4, 5])]\<rparr>"
        and env = example_env and c = "Connect 1 ''alice''" and token = "''alice''"
        and user = "''alice''" and websocket = 6]
    by blast
qed

section \<open>Distribution of a message\<close>

lemma subscribed_disconnect:
  "subscribed (snd (disconnect env w u s)) v e \<Longrightarrow> subscribed s v e"
  by (auto simp: disconnect_def subscribed_def Let_def split: option.splits if_splits)

lemma send_to_connections_sent:
  "d \<in> set (fst (send_to_connections env u ws s)) \<Longrightarrow> fst d = u \<and> snd d \<in> set ws"
proof (induction ws arbitrary: s)
  case Nil
  then show ?case by simp
next
  case (Cons w ws)
  obtain ds e s' where r: "send_to_connections env u ws s = (ds, e, s')"
    by (cases "send_to_connections env u ws s")
  show ?case
  proof (cases "send_json env w")
    case Sent
    then show ?thesis using Cons.prems Cons.IH[of s] r by auto
  next
    case SendClosed
    then show ?thesis
      using Cons.prems Cons.IH[of "snd (disconnect env w u s)"]
      by (auto split: if_splits)
  next
    case SendFailed
    then show ?thesis using Cons.prems by simp
  qed
qed

lemma subscribed_send_to_connections:
  "subscribed (snd (snd (send_to_connections env u ws s))) v e \<Longrightarrow> subscribed s v e"
proof (induction ws arbitrary: s)
  case Nil
  then show ?case by simp
next
  case (Cons w ws)
  obtain ds e' s' where r: "send_to_connections env u ws s = (ds, e', s')"
    by (cases "send_to_connections env u ws s")
  show ?case
  proof (cases "send_json env w")
    case Sent
    then show ?thesis using Cons.prems Cons.IH[of s] r by auto
  next
    case SendClosed
    then show ?thesis
      using Cons.prems Cons.IH[of "snd (disconnect env w u s)"] subscribed_disconnect
      by (auto split: if_splits)
  next
    case SendFailed
    then show ?thesis using Cons.prems by simp
  qed
qed

lemma distribute_items_sent:
  "(u, w) \<in> set (fst (distribute_items env p items s)) \<Longrightarrow>
     \<not> not_targeted (ws_user_ids p) u \<and> subscribed s u (ws_event p) \<and>
     (\<exists>ws. (u, ws) \<in> set items \<and> w \<in> set ws)"
proof (induction items arbitrary: s)
  case Nil
  then show ?case by simp
next
  case (Cons item items)
  obtain v conns where item: "item = (v, conns)" by (cases item)
  obtain ds e s1 where send: "send_to_connections env v conns s = (ds, e, s1)"
    by (cases "send_to_connections env v conns s")
  obtain ds' e' s2 where rest: "distribute_items env p items s1 = (ds', e', s2)"
    by (cases "distribute_items env p items s1")
  have mono: "subscribed s1 u (ws_event p) \<Longrightarrow> subscribed s u (ws_event p)"
    using subscribed_send_to_connections[of env v conns s u "ws_event p"] send by simp
  have here: "(u, w) \<in> set ds \<Longrightarrow> u = v \<and> w \<in> set conns"
    using send_to_connections_sent[of "(u, w)" env v conns s] send by simp
  show ?case
  proof (cases "not_targeted (ws_user_ids p) v")
    case True
    then show ?thesis using Cons.prems Cons.IH[of s] item by auto
  next
    case False
    note targeted = this
    show ?thesis
    proof (cases "subscribed s v (ws_event p)")
      case False
      then show ?thesis using Cons.prems Cons.IH[of s] item targeted by auto
    next
      case True
      show ?thesis
      proof (cases e)
        case (Some err)
        then have "(u, w) \<in> set ds"
          using Cons.prems item targeted True send by simp
        then show ?thesis using here item targeted True by auto
      next
        case None
        then have "(u, w) \<in> set ds \<or> (u, w) \<in> set ds'"
          using Cons.prems item targeted True send rest by simp
        then show ?thesis
        proof
          assume "(u, w) \<in> set ds"
          then show ?thesis using here item targeted True by auto
        next
          assume "(u, w) \<in> set ds'"
          then have "(u, w) \<in> set (fst (distribute_items env p items s1))" using rest by simp
          from Cons.IH[OF this] show ?thesis using mono by auto
        qed
      qed
    qed
  qed
qed







text \<open>An empty target list is falsy, so it is treated as no list. In a state whose
  subscribers hold the name \<^verbatim>\<open>goal\<close>, a message of that name with the empty list is sent
  to every subscriber.\<close>

lemma distribute_message_empty_list_example:
  "fst (distribute_message example_env
          (make_ws_payload example_env ''goal'' (OtherPayload ''p'') (Some [])) example_state)
     = [(''A'', 1), (''A'', 2), (''C'', 4)] \<and>
   filter (\<lambda>(u, w). u \<in> set ([] :: string list) \<and> subscribed example_state u ''goal'')
     (live_connections example_state) = [] \<and>
   event_subscribers example_state ''goal.update'' (Some []) = [''A'', ''C'']"
  by (simp add: distribute_message_def make_ws_payload_def truthy_def example_state_def
        initial_def example_env_def not_targeted_def subscribed_def event_subscribers_def)

section \<open>Disconnecting one of several sockets\<close>

lemma subscriptions_disconnect_None:
  "subscriptions s v = None \<Longrightarrow> subscriptions (snd (disconnect env w u s)) v = None"
  by (auto simp: disconnect_def Let_def split: option.splits)

lemma distinct_removeAll_nonempty:
  assumes "distinct ws" and "1 < length ws"
  shows "removeAll w ws \<noteq> []"
proof -
  have "length (removeAll w ws) = length (remove1 w ws)"
    using assms(1) by (simp add: distinct_remove1_removeAll)
  also have "\<dots> \<ge> length ws - 1" by (simp add: length_remove1)
  finally show ?thesis using assms(2) by auto
qed

lemma not_subscribed_no_delivery:
  assumes "\<not> subscribed s u (ws_event p)"
  shows "(u, w) \<notin> set (fst (distribute_message env p s))"
proof
  assume "(u, w) \<in> set (fst (distribute_message env p s))"
  then have "(u, w) \<in> set (fst (distribute_items env p (connections s) s))"
    by (simp add: distribute_message_def split: if_splits)
  from distribute_items_sent[OF this] assms show False by simp
qed


lemma disconnect_registered:
  assumes "map_of (connections s) user_id = Some ws" and "websocket \<in> set ws"
    and "removeAll websocket ws \<noteq> []"
  shows "snd (disconnect env websocket user_id s) =
           s\<lparr>connections := AList.update user_id (removeAll websocket ws) (connections s),
             subscriptions := (subscriptions s)(user_id := None)\<rparr>"
  using assms by (simp add: disconnect_def Let_def)

lemma subscribed_after_subscribe:
  "event \<in> valid_events \<Longrightarrow> subscribed (snd (subscribe env w user_id [event] s)) user_id event"
  by (simp add: subscribe_def subscribed_def Let_def)

text \<open>
  C10. Subscriptions are kept per user. When a user with more than one registered
  socket disconnects one of them, the user's whole entry in the subscription registry
  is deleted while the other sockets stay registered: the user is subscribed to no
  event type, no message of any type is sent to any of the user's sockets, and a new
  \<open>subscribe\<close> makes the user match again.
\<close>

theorem disconnect_one_of_many:
  assumes "map_of (connections s) user_id = Some ws" and "distinct ws"
    and "websocket \<in> set ws" and "1 < length ws"
  shows "subscriptions (snd (disconnect env websocket user_id s)) user_id = None \<and>
         conns_of (snd (disconnect env websocket user_id s)) user_id = removeAll websocket ws \<and>
         removeAll websocket ws \<noteq> [] \<and>
         (\<forall>event. \<not> subscribed (snd (disconnect env websocket user_id s)) user_id event) \<and>
         (\<forall>w. (user_id, w) \<notin>
            set (fst (distribute_message env' p (snd (disconnect env websocket user_id s))))) \<and>
         (event \<in> valid_events \<longrightarrow>
            subscribed (snd (subscribe env'' w' user_id [event]
                              (snd (disconnect env websocket user_id s)))) user_id event)"
proof -
  have ne: "removeAll websocket ws \<noteq> []"
    using assms(2,4) by (rule distinct_removeAll_nonempty)
  have st: "snd (disconnect env websocket user_id s) =
           s\<lparr>connections := AList.update user_id (removeAll websocket ws) (connections s),
             subscriptions := (subscriptions s)(user_id := None)\<rparr>"
    using assms(1,3) ne by (rule disconnect_registered)
  have subs: "subscriptions (snd (disconnect env websocket user_id s)) user_id = None"
    by (simp add: st)
  have conns: "conns_of (snd (disconnect env websocket user_id s)) user_id = removeAll websocket ws"
    by (simp add: st conns_of_def update_conv')
  have nosub: "\<not> subscribed (snd (disconnect env websocket user_id s)) user_id e" for e
    using subs by (simp add: subscribed_def)
  have nodel: "(user_id, w) \<notin>
      set (fst (distribute_message env' p (snd (disconnect env websocket user_id s))))" for w
    using nosub by (rule not_subscribed_no_delivery)
  show ?thesis
    using subs conns ne nosub nodel subscribed_after_subscribe by blast
qed

theorem disconnect_one_of_many_witness:
  "map_of (connections example_state) ''A'' = Some [1, 2] \<and> distinct [1, 2 :: nat] \<and>
   (1 :: nat) \<in> set [1, 2] \<and> 1 < length [1, 2 :: nat] \<and>
   subscribed example_state ''A'' ''goal'' \<and>
   subscriptions (snd (disconnect example_env 1 ''A'' example_state)) ''A'' = None \<and>
   conns_of (snd (disconnect example_env 1 ''A'' example_state)) ''A'' = [2] \<and>
   (''A'', 2) \<notin> set (fst (distribute_message example_env
       (make_ws_payload example_env ''goal'' (OtherPayload ''p'') None)
       (snd (disconnect example_env 1 ''A'' example_state)))) \<and>
   ''goal'' \<in> valid_events \<and>
   subscribed (snd (subscribe example_env 2 ''A'' [''goal'']
                      (snd (disconnect example_env 1 ''A'' example_state)))) ''A'' ''goal''"
proof -
  have h1: "map_of (connections example_state) ''A'' = Some [1, 2]"
    by (simp add: example_state_def)
  have h2: "distinct [1, 2 :: nat]" by simp
  have h3: "(1 :: nat) \<in> set [1, 2]" by simp
  have h4: "1 < length [1, 2 :: nat]" by simp
  have h5: "subscribed example_state ''A'' ''goal''"
    by (simp add: subscribed_def example_state_def)
  have h6: "''goal'' \<in> valid_events" by (simp add: valid_events_def)
  show ?thesis
    using h1 h2 h3 h4 h5 h6
      disconnect_one_of_many[OF h1 h2 h3 h4, of example_env example_env
        "make_ws_payload example_env ''goal'' (OtherPayload ''p'') None" "''goal''" example_env 2]
    by simp
qed

section \<open>Targeted delivery of published events\<close>

text \<open>WebSocketManager's \<open>subscribe\<close> admits only the names of \<open>valid_events\<close>, and none of
  them is a value of \<open>EVENT_TYPES\<close>. So in every state reached from the initial one, whatever
  EventManager's own registry holds, no user is subscribed in WebSocketManager to a type
  that \<open>publish_event\<close> accepts, and a published event is sent to nobody.\<close>

lemma subscriptions_broadcast [simp]:
  "subscriptions (snd (broadcast env t m us s)) = subscriptions s"
  by (simp add: broadcast_def ws_event_cache_set_def)

lemma subscriptions_publish_event [simp]:
  "subscriptions (snd (publish_event env t p us s)) = subscriptions s"
  by (simp add: publish_event_def event_cache_set_def create_event_channel_def split: bool.splits)

lemma subscriptions_handle_event [simp]:
  "subscriptions (handle_event env ch m s) = subscriptions s"
  by (simp add: handle_event_def split: option.splits)

lemma subscriptions_connect [simp]:
  "subscriptions (snd (connect env w token s)) = subscriptions s"
  by (simp add: connect_def Let_def split: sum.splits option.splits)

lemma subscriptions_save_sync_cursor [simp]:
  "subscriptions (save_sync_cursor env u c s) = subscriptions s"
  by (simp add: save_sync_cursor_def Let_def)

lemma subscriptions_sync_account_data [simp]:
  "subscriptions (snd (sync_account_data env u tok s)) = subscriptions s"
  by (cases "get_balances env tok") (simp_all add: sync_account_data_def Let_def)

lemma subscriptions_sync_transactions [simp]:
  "subscriptions (snd (sync_transactions env u tok s)) = subscriptions s"
  by (cases "plaid_sync_transactions env tok (sync_cursors s u)")
     (simp_all add: sync_transactions_def Let_def split: prod.splits)

lemma subscriptions_cancel_sync [simp]:
  "subscriptions (snd (cancel_sync env u s)) = subscriptions s"
  by (simp add: cancel_sync_def)

lemma subscriptions_schedule_sync [simp]:
  "subscriptions (snd (schedule_sync env u toks i s)) = subscriptions s"
  by (simp add: schedule_sync_def Let_def cancel_sync_def)

lemma subscriptions_sync_tokens [simp]:
  "subscriptions (snd (sync_tokens env u toks s)) = subscriptions s"
proof (induction toks arbitrary: s)
  case Nil
  show ?case by simp
next
  case (Cons tok toks)
  obtain r1 s1 where a: "sync_account_data env u tok s = (r1, s1)"
    by (cases "sync_account_data env u tok s")
  obtain r2 s2 where b: "sync_transactions env u tok s1 = (r2, s2)"
    by (cases "sync_transactions env u tok s1")
  have c1: "subscriptions s1 = subscriptions s"
    using subscriptions_sync_account_data[of env u tok s] a by simp
  have c2: "subscriptions s2 = subscriptions s1"
    using subscriptions_sync_transactions[of env u tok s1] b by simp
  show ?case
    using a b c1 c2 Cons.IH[of s2] by (cases r1; cases r2) simp_all
qed

lemma subscriptions_sync_task [simp]:
  "subscriptions (snd (snd (sync_task envs sched s))) = subscriptions s"
proof (induction envs arbitrary: sched s)
  case Nil
  show ?case by simp
next
  case (Cons env envs)
  obtain r s1 where a: "sync_tokens env (sch_user_id sched) (sch_access_tokens sched) s = (r, s1)"
    by (cases "sync_tokens env (sch_user_id sched) (sch_access_tokens sched) s")
  have c1: "subscriptions s1 = subscriptions s"
    using subscriptions_sync_tokens[of env "sch_user_id sched" "sch_access_tokens sched" s] a
    by simp
  show ?case
  proof (cases r)
    case None
    then show ?thesis
      using a c1
        Cons.IH[of "sched\<lparr>sch_last_sync := Some (utcnow env)\<rparr>"
          "s1\<lparr>schedule_cache :=
                cache_set env (schedule_cache s1) (''sync_schedule:'' @ sch_user_id sched)
                  (sched\<lparr>sch_last_sync := Some (utcnow env)\<rparr>)\<rparr>"]
      by (auto split: prod.splits)
  next
    case (Some e)
    then show ?thesis using a c1 Cons.IH[of sched s1] by (auto split: prod.splits)
  qed
qed

lemma subscribed_cong: "subscriptions s' = subscriptions s \<Longrightarrow> subscribed s' u t = subscribed s u t"
  by (simp add: subscribed_def)









lemma distribute_items_empty_targets:
  "ws_user_ids p = Some [] \<Longrightarrow>
     distribute_items env p items s = distribute_items env (p\<lparr>ws_user_ids := None\<rparr>) items s"
  by (induction items arbitrary: s) (auto simp: not_targeted_def split: prod.splits option.splits)


lemma distribute_message_empty_targets:
  "ws_user_ids p = Some [] \<Longrightarrow>
     distribute_message env p s = distribute_message env (p\<lparr>ws_user_ids := None\<rparr>) s"
  using distribute_items_empty_targets[of p env "connections s" s]
  by (simp add: distribute_message_def)






section \<open>The heartbeat\<close>

lemma heartbeat_round:
  "monitor_heartbeat env [(ping, answer)] w u s =
     (if ping = Sent \<and> (\<exists>m. answer = Received m) then (True, s)
      else (False, snd (disconnect env w u s)))"
  by (cases ping; cases answer) simp_all

lemma disconnect_unregisters: "w \<notin> set (conns_of (snd (disconnect env w u s)) u)"
  by (cases "map_of (connections s) u")
     (auto simp: disconnect_def conns_of_def Let_def update_conv' delete_conv')

lemma heartbeat_missed_answer:
  "answer \<in> {RecvTimeout, RecvClosed, RecvFailed} \<Longrightarrow>
   fst (monitor_heartbeat env ((ping, answer) # rounds) w u s) = False \<and>
   w \<notin> set (conns_of (snd (monitor_heartbeat env ((ping, answer) # rounds) w u s)) u)"
  by (cases ping) (auto simp: disconnect_unregisters)

lemma heartbeat_any_message:
  "monitor_heartbeat env ((Sent, Received m) # rounds) w u s = monitor_heartbeat env rounds w u s"
  by simp

text \<open>
  C7. The claim: after a ping the connection stays open if and only if a pong arrives
  within \<open>PING_TIMEOUT\<close>. The monitor does disconnect on a timeout, a closed socket or
  any other error (\<open>heartbeat_missed_answer\<close>), but it never looks at what it received:
  a client that answers three pings with a subscription request, a ping of its own and
  an unknown message, and never with a pong, is still registered and still monitored.
\<close>

theorem heartbeat_accepts_any_message:
  "monitor_heartbeat example_env
     [(Sent, Received (ActionMessage ''subscribe'' [''goal''])),
      (Sent, Received (TypeMessage ''ping'')),
      (Sent, Received (TypeMessage ''hello''))] 4 ''C'' example_state
     = (True, example_state) \<and>
   4 \<in> set (conns_of example_state ''C'')"
  by (simp add: conns_of_def example_state_def)

section \<open>The result of publish_event\<close>

lemma publish_event_known_types:
  "set (map snd EVENT_TYPES) =
     {''account.update'', ''transaction.create'', ''budget.update'', ''goal.update'',
      ''investment.update''}"
  by (auto simp: EVENT_TYPES_def)

text \<open>
  C5 (amended). \<open>publish_event\<close> never raises, and returns True exactly when the type is
  one of the five values of \<open>EVENT_TYPES\<close> (\<^verbatim>\<open>sync.failed\<close> is not one of them), the payload
  can be serialised, and the awaited cache write does not raise.
\<close>

theorem publish_event_returns:
  "fst (publish_event env event_type p user_ids s) =
     (event_type \<in> {''account.update'', ''transaction.create'', ''budget.update'',
                     ''goal.update'', ''investment.update''} \<and>
      json_ok env p \<and> await_cache_ok env)"
proof -
  have "fst (publish_event env event_type p user_ids s) =
     (event_type \<in> set (map snd EVENT_TYPES) \<and> json_ok env p \<and> await_cache_ok env)"
    by (simp add: publish_event_def create_event_channel_def event_cache_set_def
          split: bool.splits)
  then show ?thesis
    unfolding publish_event_known_types .
qed

theorem publish_event_returns_witness:
  "fst (publish_event example_env ''goal.update'' (OtherPayload ''p'') (Some [''A'']) initial)
   \<and> \<not> fst (publish_event example_env ''goal'' (OtherPayload ''p'') (Some [''A'']) initial)"
  using publish_event_returns[of example_env "''goal.update''" "OtherPayload ''p''" "Some [''A'']" initial]
    publish_event_returns[of example_env "''goal''" "OtherPayload ''p''" "Some [''A'']" initial]
  by (simp add: example_env_def)

text \<open>\<^verbatim>\<open>sync.failed\<close> is refused although nothing fails; and a known type gives False
  when the cache write raises.\<close>

theorem publish_event_counterexample:
  "\<not> fst (publish_event example_env ''sync.failed'' (OtherPayload ''p'') None initial) \<and>
   \<not> fst (publish_event (example_env\<lparr>await_cache_ok := False\<rparr>) ''account.update''
            (OtherPayload ''p'') None initial)"
  by (simp add: publish_event_def create_event_channel_def event_cache_set_def EVENT_TYPES_def
        example_env_def)

section \<open>Transaction sync: the cursor and the reported count\<close>

lemma publish_event_cursors [simp]:
  "sync_cursors (snd (publish_event env t p us s)) = sync_cursors s"
  "cursor_cache (snd (publish_event env t p us s)) = cursor_cache s"
  "cursor_keys (snd (publish_event env t p us s)) = cursor_keys s"
  by (simp_all add: publish_event_def event_cache_set_def create_event_channel_def broadcast_def
        ws_event_cache_set_def split: bool.splits)

lemma save_sync_cursor_cursors:
  "sync_cursors (save_sync_cursor env u c s) = (sync_cursors s)(u \<mapsto> c)"
  "cursor_cache (save_sync_cursor env u c s) =
     (if redis_ok env then (cursor_cache s)(SYNC_CURSOR_PREFIX @ u \<mapsto> c) else cursor_cache s)"
  by (simp_all add: save_sync_cursor_def Let_def cache_set_def)

lemma sync_transactions_raises:
  "transactions_sync env tok (sync_cursors s u) = Inl e \<Longrightarrow>
     sync_transactions env u tok s = (Inl e, s)"
  by (simp add: sync_transactions_def plaid_sync_transactions_def)


lemma sync_transactions_cursor:
  "transactions_sync env tok (sync_cursors s u) = Inr r \<Longrightarrow>
     sync_cursors (snd (sync_transactions env u tok s)) =
       (if next_cursor r = [] then sync_cursors s else (sync_cursors s)(u \<mapsto> next_cursor r)) \<and>
     cursor_cache (snd (sync_transactions env u tok s)) =
       (if next_cursor r \<noteq> [] \<and> redis_ok env
        then (cursor_cache s)(SYNC_CURSOR_PREFIX @ u \<mapsto> next_cursor r) else cursor_cache s)"
  by (simp add: sync_transactions_def plaid_sync_transactions_def Let_def save_sync_cursor_cursors)







text \<open>
  C2 (amended). The cursor is updated exactly when the aggregator call returns with a
  non-empty next cursor: it is then stored in memory, and in Redis if Redis answers,
  before the batch is published and whatever becomes of the publication. When the
  aggregator call raises, the state is left as it was. There is no step that applies
  the batch together with the cursor.
\<close>

theorem sync_transactions_cursor_update:
  "(transactions_sync env tok (sync_cursors s u) = Inl e \<longrightarrow>
      sync_transactions env u tok s = (Inl e, s)) \<and>
   (transactions_sync env tok (sync_cursors s u) = Inr r \<longrightarrow>
      sync_cursors (snd (sync_transactions env u tok s)) =
        (if next_cursor r = [] then sync_cursors s else (sync_cursors s)(u \<mapsto> next_cursor r)) \<and>
      cursor_cache (snd (sync_transactions env u tok s)) =
        (if next_cursor r \<noteq> [] \<and> redis_ok env
         then (cursor_cache s)(SYNC_CURSOR_PREFIX @ u \<mapsto> next_cursor r) else cursor_cache s))"
  using sync_transactions_raises sync_transactions_cursor by blast

theorem sync_transactions_cursor_update_witness:
  "transactions_sync (example_env\<lparr>transactions_sync := \<lambda>token cursor. Inl ApiException\<rparr>)
      ''tok'' (sync_cursors synced_state ''alice'') = Inl ApiException \<and>
   sync_transactions (example_env\<lparr>transactions_sync := \<lambda>token cursor. Inl ApiException\<rparr>)
      ''alice'' ''tok'' synced_state = (Inl ApiException, synced_state) \<and>
   sync_cursors (snd (sync_transactions (example_env\<lparr>json_ok := \<lambda>p. False\<rparr>)
      ''alice'' ''tok'' initial)) ''alice'' = Some ''c1''"
proof -
  let ?bad = "example_env\<lparr>transactions_sync := \<lambda>token cursor. Inl ApiException\<rparr>"
  let ?mute = "example_env\<lparr>json_ok := \<lambda>p. False\<rparr>"
  let ?r = "\<lparr>added = [\<lparr>txn_id = ''tx_1'', txn_account_id = ''acc_1'', txn_amount = 50,
                    txn_date = ''2023-01-01'', txn_name = ''Test Transaction'',
                    txn_merchant_name = Some ''Test Merchant'',
                    txn_category = Some [''Food'', ''Restaurants''], txn_pending = False\<rparr>],
          modified = [], removed = [], next_cursor = ''c1''\<rparr>"
  have h1: "transactions_sync ?bad ''tok'' (sync_cursors synced_state ''alice'') = Inl ApiException"
    by simp
  have h2: "transactions_sync ?mute ''tok'' (sync_cursors initial ''alice'') = Inr ?r"
    by (simp add: example_env_def)
  show ?thesis
    using h1 h2
      sync_transactions_cursor_update[of ?bad "''tok''" synced_state "''alice''" ApiException ?r]
      sync_transactions_cursor_update[of ?mute "''tok''" initial "''alice''" ApiException ?r]
    by simp
qed

text \<open>The publication of the batch fails (the payload cannot be serialised, so nothing is
  written to either event channel), and yet the cursor has advanced from None to
  \<^verbatim>\<open>c1\<close>, in memory and in Redis.\<close>

theorem sync_transactions_cursor_counterexample:
  "sync_cursors initial ''alice'' = None \<and>
   sync_cursors (snd (sync_transactions (example_env\<lparr>json_ok := \<lambda>p. False\<rparr>)
      ''alice'' ''tok'' initial)) ''alice'' = Some ''c1'' \<and>
   cursor_cache (snd (sync_transactions (example_env\<lparr>json_ok := \<lambda>p. False\<rparr>)
      ''alice'' ''tok'' initial)) ''sync_cursor:alice'' = Some ''c1'' \<and>
   event_cache (snd (sync_transactions (example_env\<lparr>json_ok := \<lambda>p. False\<rparr>)
      ''alice'' ''tok'' initial)) = Map.empty \<and>
   ws_event_cache (snd (sync_transactions (example_env\<lparr>json_ok := \<lambda>p. False\<rparr>)
      ''alice'' ''tok'' initial)) = Map.empty"
  by (simp add: sync_transactions_def plaid_sync_transactions_def Let_def example_env_def
        initial_def save_sync_cursor_def cache_set_def publish_event_def
        create_event_channel_def EVENT_TYPES_def SYNC_CURSOR_PREFIX_def)


section \<open>Account sync: change detection\<close>

lemma sync_account_data_raises:
  "accounts_get env tok = Inl e \<Longrightarrow> sync_account_data env u tok s = (Inl e, s)"
  by (simp add: sync_account_data_def get_balances_def)

lemma sync_account_data_changes_detected:
  "get_balances env tok = Inr balances \<Longrightarrow>
   fst (sync_account_data env u tok s) =
     Inr \<lparr>as_user_id = u, as_balances = balances,
          changes_detected =
            (\<not> truthy (cache_get env (balances_cache s) (''balances:'' @ u)) \<or>
             Some balances \<noteq> cache_get env (balances_cache s) (''balances:'' @ u)),
          as_sync_time = utcnow env\<rparr>"
  by (simp add: sync_account_data_def Let_def)

text \<open>
  C9. The claim: \<open>changes_detected\<close> is true if and only if some account's balance
  differs from the cached one. The code compares the whole fetched list with the
  cached list, and every fetched entry carries the time of its fetch
  (\<open>bal_last_updated\<close>). Here the aggregator reports the same account with the same
  amounts an hour after the first sync, and the second sync still reports a change.
\<close>

theorem sync_account_data_same_balances:
  "balances_cache (snd (sync_account_data example_env ''alice'' ''tok'' initial)) ''balances:alice''
     = Some [\<lparr>bal_account_id = ''acc_1'', bal_current = Some 1000, bal_available = Some 950,
              bal_limit = None, bal_last_updated = ''2024-01-01T00:00:00''\<rparr>] \<and>
   accounts_get (example_env\<lparr>utcnow := ''2024-01-01T01:00:00''\<rparr>) ''tok''
     = accounts_get example_env ''tok'' \<and>
   fst (sync_account_data (example_env\<lparr>utcnow := ''2024-01-01T01:00:00''\<rparr>) ''alice'' ''tok''
          (snd (sync_account_data example_env ''alice'' ''tok'' initial))) =
     Inr \<lparr>as_user_id = ''alice'',
          as_balances = [\<lparr>bal_account_id = ''acc_1'', bal_current = Some 1000,
                          bal_available = Some 950, bal_limit = None,
                          bal_last_updated = ''2024-01-01T01:00:00''\<rparr>],
          changes_detected = True, as_sync_time = ''2024-01-01T01:00:00''\<rparr>"
  by (simp add: sync_account_data_def get_balances_def Let_def example_env_def initial_def
        cache_get_def cache_set_def truthy_def publish_event_def create_event_channel_def
        EVENT_TYPES_def event_cache_set_def broadcast_def ws_event_cache_set_def)

theorem sync_account_data_same_balances_witness:
  "map_sum id changes_detected
     (fst (sync_account_data (example_env\<lparr>utcnow := ''2024-01-01T01:00:00''\<rparr>) ''alice'' ''tok''
            (snd (sync_account_data example_env ''alice'' ''tok'' initial)))) = Inr True"
  using sync_account_data_same_balances by simp

section \<open>The periodic task\<close>

lemma sync_tokens_first_fetch_fails:
  "accounts_get env tok = Inl e \<Longrightarrow> sync_tokens env u (tok # toks) s = (Some e, s)"
  by (simp add: sync_account_data_raises)

lemma sync_task_all_fail:
  assumes "sch_access_tokens sched = tok # toks"
    and "\<forall>env \<in> set envs. isl (accounts_get env tok)"
  shows "sync_task envs sched s = (replicate (length envs) 60, sched, s)"
  using assms(2)
proof (induction envs)
  case Nil
  show ?case by simp
next
  case (Cons env envs)
  then obtain e where e: "accounts_get env tok = Inl e"
    by (cases "accounts_get env tok") auto
  have "sync_tokens env (sch_user_id sched) (sch_access_tokens sched) s = (Some e, s)"
    using sync_tokens_first_fetch_fails[OF e] assms(1) by simp
  then show ?case using Cons by simp
qed

lemma sync_task_sleeps:
  "length (fst (sync_task envs sched s)) = length envs \<and>
   set (fst (sync_task envs sched s)) \<subseteq> {60, sch_interval sched * 60}"
proof (induction envs arbitrary: sched s)
  case Nil
  show ?case by simp
next
  case (Cons env envs)
  obtain r s1 where a: "sync_tokens env (sch_user_id sched) (sch_access_tokens sched) s = (r, s1)"
    by (cases "sync_tokens env (sch_user_id sched) (sch_access_tokens sched) s")
  show ?case
  proof (cases r)
    case None
    let ?sched = "sched\<lparr>sch_last_sync := Some (utcnow env)\<rparr>"
    let ?s = "s1\<lparr>schedule_cache :=
                cache_set env (schedule_cache s1) (''sync_schedule:'' @ sch_user_id sched) ?sched\<rparr>"
    obtain sl sc s' where b: "sync_task envs ?sched ?s = (sl, sc, s')"
      by (cases "sync_task envs ?sched ?s")
    show ?thesis using a None b Cons.IH[of ?sched ?s] by auto
  next
    case (Some e)
    obtain sl sc s' where b: "sync_task envs sched s1 = (sl, sc, s')"
      by (cases "sync_task envs sched s1")
    show ?thesis using a Some b Cons.IH[of sched s1] by auto
  qed
qed

lemma publish_event_unknown: "t \<notin> set (map snd EVENT_TYPES) \<Longrightarrow> publish_event env t p us s = (False, s)"
  by (simp add: publish_event_def)

lemma publish_event_other_channel:
  "k \<noteq> EVENT_CHANNEL_PREFIX @ '':'' @ t \<Longrightarrow>
     event_cache (snd (publish_event env t p us s)) k = event_cache s k"
  by (simp add: publish_event_def event_cache_set_def create_event_channel_def broadcast_def
        ws_event_cache_set_def split: bool.splits)

lemma event_cache_save_sync_cursor [simp]:
  "event_cache (save_sync_cursor env u c s) = event_cache s"
  by (simp add: save_sync_cursor_def Let_def)

lemma sync_account_data_failed_channel:
  "event_cache (snd (sync_account_data env u tok s)) ''events:sync.failed''
     = event_cache s ''events:sync.failed''"
proof (cases "get_balances env tok")
  case (Inl e)
  then show ?thesis by (simp add: sync_account_data_def)
next
  case (Inr balances)
  have k: "''events:sync.failed'' \<noteq> EVENT_CHANNEL_PREFIX @ '':'' @ ''account.update''"
    by (simp add: EVENT_CHANNEL_PREFIX_def)
  show ?thesis
    using Inr publish_event_other_channel[OF k]
    by (simp add: sync_account_data_def Let_def)
qed

lemma sync_transactions_failed_channel:
  "event_cache (snd (sync_transactions env u tok s)) ''events:sync.failed''
     = event_cache s ''events:sync.failed''"
proof (cases "plaid_sync_transactions env tok (sync_cursors s u)")
  case (Inl e)
  then show ?thesis by (simp add: sync_transactions_def)
next
  case (Inr res)
  obtain txs nxt where res: "res = (txs, nxt)" by (cases res)
  have k: "''events:sync.failed'' \<noteq> EVENT_CHANNEL_PREFIX @ '':'' @ ''transaction.create''"
    by (simp add: EVENT_CHANNEL_PREFIX_def)
  show ?thesis
    using Inr res publish_event_other_channel[OF k]
    by (simp add: sync_transactions_def Let_def)
qed

lemma sync_tokens_failed_channel:
  "event_cache (snd (sync_tokens env u toks s)) ''events:sync.failed''
     = event_cache s ''events:sync.failed''"
proof (induction toks arbitrary: s)
  case Nil
  show ?case by simp
next
  case (Cons tok toks)
  obtain r1 s1 where a: "sync_account_data env u tok s = (r1, s1)"
    by (cases "sync_account_data env u tok s")
  obtain r2 s2 where b: "sync_transactions env u tok s1 = (r2, s2)"
    by (cases "sync_transactions env u tok s1")
  have c1: "event_cache s1 ''events:sync.failed'' = event_cache s ''events:sync.failed''"
    using sync_account_data_failed_channel[of env u tok s] a by simp
  have c2: "event_cache s2 ''events:sync.failed'' = event_cache s1 ''events:sync.failed''"
    using sync_transactions_failed_channel[of env u tok s1] b by simp
  show ?case
    using a b c1 c2 Cons.IH[of s2] by (cases r1; cases r2) simp_all
qed

lemma sync_task_failed_channel:
  "event_cache (snd (snd (sync_task envs sched s))) ''events:sync.failed''
     = event_cache s ''events:sync.failed''"
proof (induction envs arbitrary: sched s)
  case Nil
  show ?case by simp
next
  case (Cons env envs)
  obtain r s1 where a: "sync_tokens env (sch_user_id sched) (sch_access_tokens sched) s = (r, s1)"
    by (cases "sync_tokens env (sch_user_id sched) (sch_access_tokens sched) s")
  have c1: "event_cache s1 ''events:sync.failed'' = event_cache s ''events:sync.failed''"
    using sync_tokens_failed_channel[of env "sch_user_id sched" "sch_access_tokens sched" s] a
    by simp
  show ?case
  proof (cases r)
    case None
    let ?sched = "sched\<lparr>sch_last_sync := Some (utcnow env)\<rparr>"
    let ?s = "s1\<lparr>schedule_cache :=
                cache_set env (schedule_cache s1) (''sync_schedule:'' @ sch_user_id sched) ?sched\<rparr>"
    obtain sl sc s' where b: "sync_task envs ?sched ?s = (sl, sc, s')"
      by (cases "sync_task envs ?sched ?s")
    show ?thesis using a None b c1 Cons.IH[of ?sched ?s] by simp
  next
    case (Some e)
    obtain sl sc s' where b: "sync_task envs sched s1 = (sl, sc, s')"
      by (cases "sync_task envs sched s1")
    show ?thesis using a Some b c1 Cons.IH[of sched s1] by simp
  qed
qed

lemma sync_account_data_isl:
  "isl (fst (sync_account_data env u tok s)) = isl (accounts_get env tok)"
  by (cases "accounts_get env tok") (simp_all add: sync_account_data_def get_balances_def Let_def)

lemma sync_transactions_isl:
  "isl (fst (sync_transactions env u tok s)) = isl (transactions_sync env tok (sync_cursors s u))"
  by (cases "transactions_sync env tok (sync_cursors s u)")
     (simp_all add: sync_transactions_def plaid_sync_transactions_def Let_def)

lemma sync_tokens_raises_only_with_aggregator:
  "fst (sync_tokens env u toks s) \<noteq> None \<Longrightarrow>
     \<exists>tok \<in> set toks. isl (accounts_get env tok) \<or> (\<exists>c. isl (transactions_sync env tok c))"
proof (induction toks arbitrary: s)
  case Nil
  then show ?case by simp
next
  case (Cons tok toks)
  obtain r1 s1 where a: "sync_account_data env u tok s = (r1, s1)"
    by (cases "sync_account_data env u tok s")
  obtain r2 s2 where b: "sync_transactions env u tok s1 = (r2, s2)"
    by (cases "sync_transactions env u tok s1")
  show ?case
  proof (cases r1)
    case (Inl e)
    then have "isl (accounts_get env tok)"
      using sync_account_data_isl[of env u tok s] a by simp
    then show ?thesis by auto
  next
    case (Inr x)
    note r1 = this
    show ?thesis
    proof (cases r2)
      case (Inl e)
      then have "isl (transactions_sync env tok (sync_cursors s1 u))"
        using sync_transactions_isl[of env u tok s1] b by simp
      then show ?thesis by auto
    next
      case (Inr y)
      then have "fst (sync_tokens env u toks s2) \<noteq> None"
        using Cons.prems a b r1 by simp
      from Cons.IH[OF this] show ?thesis by auto
    qed
  qed
qed

lemma sync_tokens_raises_with_aggregator:
  "tok \<in> set toks \<Longrightarrow>
   isl (accounts_get env tok) \<or> (\<forall>c. isl (transactions_sync env tok c)) \<Longrightarrow>
   fst (sync_tokens env u toks s) \<noteq> None"
proof (induction toks arbitrary: s)
  case Nil
  then show ?case by simp
next
  case (Cons t toks)
  obtain r1 s1 where a: "sync_account_data env u t s = (r1, s1)"
    by (cases "sync_account_data env u t s")
  obtain r2 s2 where b: "sync_transactions env u t s1 = (r2, s2)"
    by (cases "sync_transactions env u t s1")
  show ?case
  proof (cases r1)
    case (Inl e)
    then show ?thesis using a by simp
  next
    case (Inr x)
    note r1 = this
    then have na: "\<not> isl (accounts_get env t)"
      using sync_account_data_isl[of env u t s] a by simp
    show ?thesis
    proof (cases r2)
      case (Inl e)
      then show ?thesis using a b r1 by simp
    next
      case (Inr y)
      then have nt: "\<not> isl (transactions_sync env t (sync_cursors s1 u))"
        using sync_transactions_isl[of env u t s1] b by simp
      have "tok \<noteq> t" using na nt Cons.prems(2) by auto
      then have "tok \<in> set toks" using Cons.prems(1) by simp
      from Cons.IH[OF this Cons.prems(2), of s2] show ?thesis
        using a b r1 Inr by simp
    qed
  qed
qed

lemma sync_task_append:
  "sync_task (envs1 @ envs2) sched s =
     (fst (sync_task envs1 sched s) @
        fst (sync_task envs2 (fst (snd (sync_task envs1 sched s)))
               (snd (snd (sync_task envs1 sched s)))),
      snd (sync_task envs2 (fst (snd (sync_task envs1 sched s)))
             (snd (snd (sync_task envs1 sched s)))))"
proof (induction envs1 arbitrary: sched s)
  case Nil
  show ?case by simp
next
  case (Cons env envs1)
  obtain r s1 where a: "sync_tokens env (sch_user_id sched) (sch_access_tokens sched) s = (r, s1)"
    by (cases "sync_tokens env (sch_user_id sched) (sch_access_tokens sched) s")
  show ?case
  proof (cases r)
    case None
    let ?sched = "sched\<lparr>sch_last_sync := Some (utcnow env)\<rparr>"
    let ?s = "s1\<lparr>schedule_cache :=
                cache_set env (schedule_cache s1) (''sync_schedule:'' @ sch_user_id sched) ?sched\<rparr>"
    show ?thesis using a None Cons.IH[of ?sched ?s] by (simp add: case_prod_unfold)
  next
    case (Some e)
    show ?thesis using a Some Cons.IH[of sched s1] by (simp add: case_prod_unfold)
  qed
qed

lemma sync_task_turn_raises:
  "fst (sync_tokens env (sch_user_id sched) (sch_access_tokens sched) s) \<noteq> None \<Longrightarrow>
     sync_task [env] sched s =
       ([60], sched, snd (sync_tokens env (sch_user_id sched) (sch_access_tokens sched) s))"
  by (cases "sync_tokens env (sch_user_id sched) (sch_access_tokens sched) s") auto

lemma sync_task_turn_succeeds:
  "fst (sync_tokens env (sch_user_id sched) (sch_access_tokens sched) s) = None \<Longrightarrow>
     sync_task [env] sched s =
       ([sch_interval sched * 60], sched\<lparr>sch_last_sync := Some (utcnow env)\<rparr>,
        (snd (sync_tokens env (sch_user_id sched) (sch_access_tokens sched) s))
          \<lparr>schedule_cache :=
             cache_set env
               (schedule_cache (snd (sync_tokens env (sch_user_id sched) (sch_access_tokens sched) s)))
               (''sync_schedule:'' @ sch_user_id sched)
               (sched\<lparr>sch_last_sync := Some (utcnow env)\<rparr>)\<rparr>)"
  by (cases "sync_tokens env (sch_user_id sched) (sch_access_tokens sched) s") auto

text \<open>
  C8 (amended). The periodic task retries for ever at a fixed delay. Every turn is run
  from the schedule and state the turns before it left. A turn raises only if one of
  its aggregator calls raises, and it does raise if a balance fetch raises or a
  transaction sync raises for every cursor. A turn that raises sleeps 60 seconds and
  leaves the schedule as it was; a turn that does not raise stores the time in the
  schedule's \<open>sch_last_sync\<close>, writes the schedule to Redis and sleeps the schedule's
  interval. The task makes one turn for every environment it is given, however many
  turns failed before, and no sleep is anything but one of these two; when the first
  balance fetch of every turn raises, all sleeps are 60 seconds and state and schedule
  are untouched. The task never writes the \<^verbatim>\<open>sync.failed\<close> channel, and \<open>publish_event\<close>
  refuses that type.
\<close>

theorem sync_task_retries:
  "sync_task (envs1 @ envs2) sched s =
     (fst (sync_task envs1 sched s) @
        fst (sync_task envs2 (fst (snd (sync_task envs1 sched s)))
               (snd (snd (sync_task envs1 sched s)))),
      snd (sync_task envs2 (fst (snd (sync_task envs1 sched s)))
             (snd (snd (sync_task envs1 sched s))))) \<and>
   (fst (sync_tokens env0 (sch_user_id sched) (sch_access_tokens sched) s) \<noteq> None \<longrightarrow>
      sync_task [env0] sched s =
        ([60], sched, snd (sync_tokens env0 (sch_user_id sched) (sch_access_tokens sched) s))) \<and>
   (fst (sync_tokens env0 (sch_user_id sched) (sch_access_tokens sched) s) = None \<longrightarrow>
      sync_task [env0] sched s =
        ([sch_interval sched * 60], sched\<lparr>sch_last_sync := Some (utcnow env0)\<rparr>,
         (snd (sync_tokens env0 (sch_user_id sched) (sch_access_tokens sched) s))
           \<lparr>schedule_cache :=
              cache_set env0
                (schedule_cache
                   (snd (sync_tokens env0 (sch_user_id sched) (sch_access_tokens sched) s)))
                (''sync_schedule:'' @ sch_user_id sched)
                (sched\<lparr>sch_last_sync := Some (utcnow env0)\<rparr>)\<rparr>)) \<and>
   (fst (sync_tokens env0 user_id tokens s) \<noteq> None \<longrightarrow>
      (\<exists>token \<in> set tokens.
         isl (accounts_get env0 token) \<or> (\<exists>c. isl (transactions_sync env0 token c)))) \<and>
   ((\<exists>token \<in> set tokens.
       isl (accounts_get env0 token) \<or> (\<forall>c. isl (transactions_sync env0 token c)))
      \<longrightarrow> fst (sync_tokens env0 user_id tokens s) \<noteq> None) \<and>
   length (fst (sync_task envs sched s)) = length envs \<and>
   set (fst (sync_task envs sched s)) \<subseteq> {60, sch_interval sched * 60} \<and>
   (sch_access_tokens sched = tok # toks \<and> (\<forall>env \<in> set envs. isl (accounts_get env tok))
      \<longrightarrow> sync_task envs sched s = (replicate (length envs) 60, sched, s)) \<and>
   event_cache (snd (snd (sync_task envs sched s))) ''events:sync.failed''
     = event_cache s ''events:sync.failed'' \<and>
   publish_event env ''sync.failed'' p user_ids s = (False, s)"
proof -
  have "''sync.failed'' \<notin> set (map snd EVENT_TYPES)" by (simp add: EVENT_TYPES_def)
  then have pe: "publish_event env ''sync.failed'' p user_ids s = (False, s)"
    by (rule publish_event_unknown)
  have d2: "(\<exists>token \<in> set tokens.
       isl (accounts_get env0 token) \<or> (\<forall>c. isl (transactions_sync env0 token c)))
      \<longrightarrow> fst (sync_tokens env0 user_id tokens s) \<noteq> None"
    using sync_tokens_raises_with_aggregator[of _ tokens env0 user_id s] by blast
  show ?thesis
    using pe d2 sync_task_append[of envs1 envs2 sched s]
      sync_task_turn_raises[of env0 sched s] sync_task_turn_succeeds[of env0 sched s]
      sync_tokens_raises_only_with_aggregator[of env0 user_id tokens s]
      sync_task_sleeps[of envs sched s] sync_task_all_fail[of sched tok toks envs s]
      sync_task_failed_channel[of envs sched s]
    by (intro conjI) blast+
qed


theorem sync_task_retries_witness:
  "sch_access_tokens example_schedule = [''tok''] \<and>
   isl (accounts_get failing_env ''tok'') \<and>
   sync_task [failing_env, failing_env, failing_env] example_schedule initial
     = ([60, 60, 60], example_schedule, initial) \<and>
   fst (sync_tokens txn_failing_env (sch_user_id example_schedule)
          (sch_access_tokens example_schedule) synced_state) \<noteq> None \<and>
   fst (sync_task [txn_failing_env] example_schedule synced_state) = [60] \<and>
   fst (snd (sync_task [txn_failing_env] example_schedule synced_state)) = example_schedule \<and>
   fst (sync_tokens example_env (sch_user_id example_schedule)
          (sch_access_tokens example_schedule) synced_state) = None \<and>
   fst (sync_task [example_env] example_schedule synced_state) = [3600] \<and>
   fst (snd (sync_task [example_env] example_schedule synced_state))
     = example_schedule\<lparr>sch_last_sync := Some ''2024-01-01T00:00:00''\<rparr> \<and>
   schedule_cache (snd (snd (sync_task [example_env] example_schedule synced_state)))
     ''sync_schedule:alice''
     = Some (example_schedule\<lparr>sch_last_sync := Some ''2024-01-01T00:00:00''\<rparr>)"
proof -
  have h1: "sch_access_tokens example_schedule = ''tok'' # []"
    by (simp add: example_schedule_def)
  have h2: "\<forall>env \<in> set [failing_env, failing_env, failing_env]. isl (accounts_get env ''tok'')"
    by (simp add: failing_env_def)
  have h3: "isl (accounts_get failing_env ''tok'')"
    by (simp add: failing_env_def)
  have t1: "\<exists>token \<in> set (sch_access_tokens example_schedule).
      isl (accounts_get txn_failing_env token) \<or> (\<forall>c. isl (transactions_sync txn_failing_env token c))"
    by (simp add: example_schedule_def txn_failing_env_def)
  have t2: "\<not> (\<exists>token \<in> set (sch_access_tokens example_schedule).
      isl (accounts_get example_env token) \<or> (\<exists>c. isl (transactions_sync example_env token c)))"
    by (simp add: example_schedule_def example_env_def)
  have i: "sch_interval example_schedule * 60 = 3600" "utcnow example_env = ''2024-01-01T00:00:00''"
    "redis_ok example_env" "sch_user_id example_schedule = ''alice''"
    by (simp_all add: example_schedule_def example_env_def)
  note a = sync_task_retries[where envs = "[failing_env, failing_env, failing_env]"
        and sched = example_schedule and s = initial and tok = "''tok''" and toks = "[]"
        and ?envs1.0 = "[]" and ?envs2.0 = "[]" and env0 = failing_env
        and user_id = "''alice''" and tokens = "[]"]
  note b = sync_task_retries[where envs = "[]" and sched = example_schedule
        and s = synced_state and ?envs1.0 = "[]" and ?envs2.0 = "[]" and env0 = txn_failing_env
        and user_id = "sch_user_id example_schedule"
        and tokens = "sch_access_tokens example_schedule"]
  note c = sync_task_retries[where envs = "[]" and sched = example_schedule
        and s = synced_state and ?envs1.0 = "[]" and ?envs2.0 = "[]" and env0 = example_env
        and user_id = "sch_user_id example_schedule"
        and tokens = "sch_access_tokens example_schedule"]
  have f: "sync_task [failing_env, failing_env, failing_env] example_schedule initial
     = ([60, 60, 60], example_schedule, initial)"
    using a h1 h2 by simp
  have r: "fst (sync_tokens txn_failing_env (sch_user_id example_schedule)
          (sch_access_tokens example_schedule) synced_state) \<noteq> None"
    using b t1 by blast
  have rt: "sync_task [txn_failing_env] example_schedule synced_state =
        ([60], example_schedule,
         snd (sync_tokens txn_failing_env (sch_user_id example_schedule)
                (sch_access_tokens example_schedule) synced_state))"
    using b r by blast
  have ok: "fst (sync_tokens example_env (sch_user_id example_schedule)
          (sch_access_tokens example_schedule) synced_state) = None"
    using c t2 by blast
  have st: "sync_task [example_env] example_schedule synced_state =
        ([sch_interval example_schedule * 60],
         example_schedule\<lparr>sch_last_sync := Some (utcnow example_env)\<rparr>,
         (snd (sync_tokens example_env (sch_user_id example_schedule)
                 (sch_access_tokens example_schedule) synced_state))
           \<lparr>schedule_cache :=
              cache_set example_env
                (schedule_cache
                   (snd (sync_tokens example_env (sch_user_id example_schedule)
                           (sch_access_tokens example_schedule) synced_state)))
                (''sync_schedule:'' @ sch_user_id example_schedule)
                (example_schedule\<lparr>sch_last_sync := Some (utcnow example_env)\<rparr>)\<rparr>)"
    using c ok by blast
  have g5: "fst (sync_task [txn_failing_env] example_schedule synced_state) = [60]"
    by (simp only: rt fst_conv)
  have g6: "fst (snd (sync_task [txn_failing_env] example_schedule synced_state)) = example_schedule"
    by (simp only: rt fst_conv snd_conv)
  have g8: "fst (sync_task [example_env] example_schedule synced_state) = [3600]"
    by (simp only: st fst_conv i(1))
  have g9: "fst (snd (sync_task [example_env] example_schedule synced_state))
     = example_schedule\<lparr>sch_last_sync := Some ''2024-01-01T00:00:00''\<rparr>"
    by (simp only: st fst_conv snd_conv i(2))
  have g10: "schedule_cache (snd (snd (sync_task [example_env] example_schedule synced_state)))
     ''sync_schedule:alice''
     = Some (example_schedule\<lparr>sch_last_sync := Some ''2024-01-01T00:00:00''\<rparr>)"
    unfolding st snd_conv
    by (simp add: cache_set_def i del: sync_tokens.simps sync_task.simps)
  show ?thesis
    by (intro conjI h1 h3 f r g5 g6 ok g8 g9 g10)
qed

text \<open>Four failures in a row: the delays do not grow, and neither the schedule nor the
  state records anything: no count, no failed status, no event.\<close>

theorem sync_task_retries_counterexample:
  "sync_task [failing_env, failing_env, failing_env, failing_env] example_schedule initial
     = ([60, 60, 60, 60], example_schedule, initial)"
proof -
  have f: "accounts_get failing_env ''tok'' = Inl ApiException"
    by (simp add: failing_env_def)
  have t: "sync_tokens failing_env (sch_user_id example_schedule)
             (sch_access_tokens example_schedule) s = (Some ApiException, s)" for s
    using sync_tokens_first_fetch_fails[OF f] by (simp add: example_schedule_def)
  show ?thesis by (simp add: t)
qed

section \<open>Scheduling\<close>

text \<open>\<open>schedule_sync\<close> always returns True; it raises the interval to the default,
  drops the user's previous task and registers the new one.\<close>

lemma schedule_sync_registers:
  "fst (schedule_sync env user_id access_tokens interval_minutes s) = True \<and>
   sync_tasks (snd (schedule_sync env user_id access_tokens interval_minutes s)) user_id =
     Some \<lparr>sch_user_id = user_id, sch_access_tokens = access_tokens,
           sch_interval = max interval_minutes DEFAULT_SYNC_INTERVAL, sch_last_sync = None\<rparr>"
  by (simp add: schedule_sync_def cancel_sync_def Let_def max_def)

lemma cancel_sync_unregisters:
  "fst (cancel_sync env user_id s) = True \<and>
   sync_tasks (snd (cancel_sync env user_id s)) user_id = None"
  by (simp add: cancel_sync_def)

end
